theory Spec2Isabelle
  imports Main "HOL-Library.Word"
begin

section \<open>JavaScript strings\<close>

text \<open>
  A JavaScript string is a sequence of 16-bit UTF-16 code units. String literals of
  \<^verbatim>\<open>frontend/app.js\<close> that are plain ASCII are written with \<open>str\<close>; the Japanese
  literals are given by their code units.
\<close>

type_synonym jstring = "16 word list"

definition str :: "string \<Rightarrow> jstring" where
  "str s = map (\<lambda>c. of_nat (of_char c)) s"

text \<open>
  \<^verbatim>\<open>String.prototype.trim\<close> removes the WhiteSpace and LineTerminator code points of
  ECMAScript from both ends: TAB, LF, VT, FF, CR, SP, NBSP, U+1680, U+2000..U+200A,
  U+2028, U+2029, U+202F, U+205F, U+3000 and U+FEFF.
\<close>

definition is_js_space :: "16 word \<Rightarrow> bool" where
  "is_js_space c =
     (c = 0x09 \<or> c = 0x0A \<or> c = 0x0B \<or> c = 0x0C \<or> c = 0x0D \<or> c = 0x20 \<or> c = 0xA0
      \<or> c = 0x1680 \<or> (0x2000 \<le> c \<and> c \<le> 0x200A) \<or> c = 0x2028 \<or> c = 0x2029
      \<or> c = 0x202F \<or> c = 0x205F \<or> c = 0x3000 \<or> c = 0xFEFF)"

definition trim :: "jstring \<Rightarrow> jstring" where
  "trim s = rev (dropWhile is_js_space (rev (dropWhile is_js_space s)))"

definition LF :: "16 word" where "LF = 0x0A"
definition CR :: "16 word" where "CR = 0x0D"

text \<open>\<^verbatim>\<open>s.startsWith(p)\<close> and \<^verbatim>\<open>s.slice(n)\<close> for a non-negative \<open>n\<close>.\<close>

definition startsWith :: "jstring \<Rightarrow> jstring \<Rightarrow> bool" where
  "startsWith s p = (take (length p) s = p)"

definition slice_from :: "jstring \<Rightarrow> nat \<Rightarrow> jstring" where
  "slice_from s n = drop n s"

text \<open>\<^verbatim>\<open>s.replace(/\r\n/g, "\n")\<close>: every CR LF pair, scanned left to right, becomes LF.\<close>

fun replace_crlf :: "jstring \<Rightarrow> jstring" where
  "replace_crlf [] = []"
| "replace_crlf [c] = [c]"
| "replace_crlf (c # d # s) =
     (if c = CR \<and> d = LF then LF # replace_crlf s else c # replace_crlf (d # s))"

text \<open>\<^verbatim>\<open>s.split("\n")\<close>: the pieces between line feeds; never the empty list.\<close>

fun split_lines :: "jstring \<Rightarrow> jstring list" where
  "split_lines [] = [[]]"
| "split_lines (c # s) =
     (if c = LF then [] # split_lines s
      else (case split_lines s of l # ls \<Rightarrow> (c # l) # ls | [] \<Rightarrow> [[c]]))"

text \<open>\<^verbatim>\<open>lines.join("\n")\<close>.\<close>

fun join_lines :: "jstring list \<Rightarrow> jstring" where
  "join_lines [] = []"
| "join_lines [l] = l"
| "join_lines (l # m # ls) = l @ LF # join_lines (m # ls)"

text \<open>\<^verbatim>\<open>xs.join(",")\<close>, as \<^verbatim>\<open>Array.prototype.toString\<close> uses it.\<close>

fun join_comma :: "jstring list \<Rightarrow> jstring" where
  "join_comma [] = []"
| "join_comma [l] = l"
| "join_comma (l # m # ls) = l @ 0x2C # join_comma (m # ls)"

text \<open>
  \<^verbatim>\<open>s.indexOf("\n\n")\<close>: the index of the first two adjacent line feeds; \<open>None\<close> stands
  for \<open>-1\<close>.
\<close>

fun indexOf_blank :: "jstring \<Rightarrow> nat option" where
  "indexOf_blank [] = None"
| "indexOf_blank [c] = None"
| "indexOf_blank (c # d # s) =
     (if c = LF \<and> d = LF then Some 0 else map_option Suc (indexOf_blank (d # s)))"

section \<open>JavaScript values\<close>

text \<open>
  What \<^verbatim>\<open>JSON.parse\<close> and \<^verbatim>\<open>res.json()\<close> hand to the program is JSON data: null,
  booleans, numbers, strings, arrays and objects with string keys (one entry per key,
  in insertion order).

  A number is a double. The program computes with no number of a response: it tests
  whether the number is truthy, which every number but \<open>0\<close> and \<open>-0\<close> is (JSON data holds
  no \<^verbatim>\<open>NaN\<close>), and it converts the number to a string, which is \<^verbatim>\<open>0\<close> for both zeros.
  Any other number is held as the string that \<^verbatim>\<open>Number::toString\<close> gives for it, such as
  \<^verbatim>\<open>1\<close>, \<^verbatim>\<open>-0.5\<close> or \<^verbatim>\<open>1e+21\<close>; that string determines the number.

  An expression of the program can moreover evaluate to \<^verbatim>\<open>undefined\<close> (an absent
  property) and to a built-in function (\<^verbatim>\<open>Array.prototype.values\<close>, reached by reading
  \<^verbatim>\<open>.values\<close> of an array).
\<close>

datatype number = Zero | Nonzero jstring

datatype json =
    JNull
  | JBool bool
  | JNum number
  | JStr jstring
  | JArr "json list"
  | JObj "(jstring \<times> json) list"

datatype jsval = Undefined | Builtin | Val json

abbreviation null :: jsval where "null \<equiv> Val JNull"

text \<open>Truthiness, as \<^verbatim>\<open>!x\<close>, \<^verbatim>\<open>x || y\<close>, \<^verbatim>\<open>if (x)\<close> and \<^verbatim>\<open>filter(Boolean)\<close> test it.\<close>

fun truthy :: "jsval \<Rightarrow> bool" where
  "truthy Undefined = False"
| "truthy Builtin = True"
| "truthy (Val JNull) = False"
| "truthy (Val (JBool b)) = b"
| "truthy (Val (JNum n)) = (n \<noteq> Zero)"
| "truthy (Val (JStr s)) = (s \<noteq> [])"
| "truthy (Val (JArr xs)) = True"
| "truthy (Val (JObj kvs)) = True"

text \<open>\<^verbatim>\<open>x == null\<close>: what \<^verbatim>\<open>??\<close> and \<^verbatim>\<open>?.\<close> test.\<close>

fun nullish :: "jsval \<Rightarrow> bool" where
  "nullish Undefined = True"
| "nullish (Val JNull) = True"
| "nullish _ = False"

text \<open>
  Reading a property, \<^verbatim>\<open>x?.k\<close>, for the property names the program reads:
  \<^verbatim>\<open>__interrupt__\<close>, \<^verbatim>\<open>interrupts\<close>, \<^verbatim>\<open>values\<close>, \<^verbatim>\<open>value\<close>, \<^verbatim>\<open>kind\<close>, \<^verbatim>\<open>question\<close>,
  \<^verbatim>\<open>analysis_preview\<close>, \<^verbatim>\<open>status\<close>, \<^verbatim>\<open>final_report\<close>, \<^verbatim>\<open>current_step\<close>, \<^verbatim>\<open>thread_id\<close>,
  \<^verbatim>\<open>type\<close>, \<^verbatim>\<open>content\<close>.
  None of them is inherited from \<^verbatim>\<open>Object.prototype\<close>, \<^verbatim>\<open>String.prototype\<close>,
  \<^verbatim>\<open>Number.prototype\<close>, \<^verbatim>\<open>Boolean.prototype\<close> or \<^verbatim>\<open>Function.prototype\<close>, and of
  \<^verbatim>\<open>Array.prototype\<close> only \<^verbatim>\<open>values\<close> is. On \<^verbatim>\<open>undefined\<close> and \<^verbatim>\<open>null\<close> the optional
  chain gives \<^verbatim>\<open>undefined\<close>; the program reads no property of them with a plain dot.
\<close>

fun get_prop :: "jsval \<Rightarrow> jstring \<Rightarrow> jsval" where
  "get_prop (Val (JObj kvs)) k = (case map_of kvs k of Some v \<Rightarrow> Val v | None \<Rightarrow> Undefined)"
| "get_prop (Val (JArr xs)) k = (if k = str ''values'' then Builtin else Undefined)"
| "get_prop _ k = Undefined"

text \<open>\<^verbatim>\<open>Array.isArray(c) ? c[0] : c\<close>.\<close>

fun first_of :: "jsval \<Rightarrow> jsval" where
  "first_of (Val (JArr [])) = Undefined"
| "first_of (Val (JArr (x # xs))) = Val x"
| "first_of c = c"

text \<open>\<^verbatim>\<open>x || y\<close> and \<^verbatim>\<open>x ?? y\<close>.\<close>

definition js_or :: "jsval \<Rightarrow> jsval \<Rightarrow> jsval" where
  "js_or x y = (if truthy x then x else y)"

definition js_coalesce :: "jsval \<Rightarrow> jsval \<Rightarrow> jsval" where
  "js_coalesce x y = (if nullish x then y else x)"

section \<open>The log journal\<close>

text \<open>
  \<^verbatim>\<open>addLogEntry({ tag, agent, summary, detail, raw })\<close>. Every call site passes strings
  for the text fields, or leaves them out (\<open>None\<close>); the clock \<^verbatim>\<open>nowISO()\<close> is an input.
\<close>

record log_args =
  arg_tag :: "jstring option"
  arg_agent :: "jstring option"
  arg_summary :: "jstring option"
  arg_detail :: "jstring option"
  arg_raw :: "jsval"

record log_entry =
  timeISO :: jstring
  tag :: jstring
  agent :: jstring
  summary :: jstring
  detail :: jstring
  raw :: jsval

definition MAX_LOG_ITEMS :: nat where
  "MAX_LOG_ITEMS = 80"

text \<open>\<^verbatim>\<open>String(x || d)\<close> for a string or absent \<open>x\<close>.\<close>

definition or_default :: "jstring option \<Rightarrow> jstring \<Rightarrow> jstring" where
  "or_default x d = (case x of None \<Rightarrow> d | Some s \<Rightarrow> if s = [] then d else s)"

definition new_entry :: "jstring \<Rightarrow> log_args \<Rightarrow> log_entry" where
  "new_entry now a =
     \<lparr> timeISO = now,
       tag = or_default (arg_tag a) (str ''LOG''),
       agent = or_default (arg_agent a) [],
       summary = or_default (arg_summary a) [],
       detail = or_default (arg_detail a) [],
       raw = js_coalesce (arg_raw a) null \<rparr>"

text \<open>
  \<^verbatim>\<open>logItems.unshift(entry); if (logItems.length > MAX_LOG_ITEMS) logItems = logItems.slice(0, MAX_LOG_ITEMS)\<close>.
\<close>

definition addLogEntry :: "jstring \<Rightarrow> log_args \<Rightarrow> log_entry list \<Rightarrow> log_entry list" where
  "addLogEntry now a logItems =
     (let items = new_entry now a # logItems
      in if length items > MAX_LOG_ITEMS then take MAX_LOG_ITEMS items else items)"

text \<open>A sequence of appends, each with the clock reading of its moment, oldest call first.\<close>

fun addLogEntries :: "(jstring \<times> log_args) list \<Rightarrow> log_entry list \<Rightarrow> log_entry list" where
  "addLogEntries [] logItems = logItems"
| "addLogEntries ((now, a) # calls) logItems = addLogEntries calls (addLogEntry now a logItems)"

section \<open>Errors and string conversion\<close>

text \<open>
  What the program can throw or be rejected with: the \<^verbatim>\<open>TypeError\<close> of a failed
  conversion, an \<^verbatim>\<open>Error\<close> the program throws itself with its message, and a rejection
  by the platform (a network failure, an abort, an unreadable or malformed body) with the
  platform's message.
\<close>

datatype error = TypeError | Error jstring | Rejected jstring

text \<open>
  The decimal digits of a natural number. The program prints two numbers of its own this
  way, the status of a response and the position of a preview item, both far below
  \<open>10^21\<close>, where \<^verbatim>\<open>Number::toString\<close> changes to the exponent form.
\<close>

fun digits :: "nat \<Rightarrow> jstring" where
  "digits n = (if n < 10 then [0x30 + of_nat n] else digits (n div 10) @ [0x30 + of_nat (n mod 10)])"

text \<open>\<^verbatim>\<open>Number::toString\<close> of a number of a response.\<close>

fun num_to_string :: "number \<Rightarrow> jstring" where
  "num_to_string Zero = str ''0''"
| "num_to_string (Nonzero s) = s"

text \<open>
  \<^verbatim>\<open>String(x)\<close>. An array prints as the join of its elements with commas, null elements
  as the empty string. An object prints through \<^verbatim>\<open>Object.prototype.toString\<close> as
  \<^verbatim>\<open>[object Object]\<close>, unless it has a property \<^verbatim>\<open>toString\<close> of its own: JSON data is
  never callable, so the conversion finds no method that returns a primitive and throws a
  \<^verbatim>\<open>TypeError\<close>.
\<close>

fun unprintable :: "json \<Rightarrow> bool" and unprintable_list :: "json list \<Rightarrow> bool" where
  "unprintable (JObj kvs) = (map_of kvs (str ''toString'') \<noteq> None)"
| "unprintable (JArr xs) = unprintable_list xs"
| "unprintable JNull = False"
| "unprintable (JBool b) = False"
| "unprintable (JNum n) = False"
| "unprintable (JStr s) = False"
| "unprintable_list [] = False"
| "unprintable_list (x # xs) = (unprintable x \<or> unprintable_list xs)"

fun to_string :: "json \<Rightarrow> jstring" and to_strings :: "json list \<Rightarrow> jstring list" where
  "to_string JNull = str ''null''"
| "to_string (JBool b) = (if b then str ''true'' else str ''false'')"
| "to_string (JNum n) = num_to_string n"
| "to_string (JStr s) = s"
| "to_string (JArr xs) = join_comma (to_strings xs)"
| "to_string (JObj kvs) = str ''[object Object]''"
| "to_strings [] = []"
| "to_strings (x # xs) = (if x = JNull then [] else to_string x) # to_strings xs"

fun js_String :: "jsval \<Rightarrow> error + jstring" where
  "js_String Undefined = Inr (str ''undefined'')"
| "js_String Builtin = Inr (str ''function values() { [native code] }'')"
| "js_String (Val j) = (if unprintable j then Inl TypeError else Inr (to_string j))"

section \<open>Reading a thread or an event payload\<close>

definition approval_request :: jstring where
  "approval_request = str ''approval_request''"

text \<open>The question of the default payload, seven code units of Japanese text ("Do you approve?").\<close>

definition default_question :: jstring where
  "default_question = [0x627F, 0x8A8D, 0x3057, 0x307E, 0x3059, 0x304B, 0xFF1F]"

definition default_payload :: json where
  "default_payload =
     JObj [(str ''kind'', JStr approval_request),
           (str ''question'', JStr default_question),
           (str ''options'', JArr [JStr (str ''y''), JStr (str ''n''), JStr (str ''retry'')]),
           (str ''analysis_preview'', JArr [])]"

text \<open>
  The candidates of \<^verbatim>\<open>extractInterruptPayload\<close>, in the order of the source:
  \<^verbatim>\<open>[obj.__interrupt__, obj?.values?.__interrupt__, obj?.interrupts, obj?.values?.interrupts].filter(Boolean)\<close>.
\<close>

definition locations :: "jsval \<Rightarrow> jsval list" where
  "locations obj =
     [get_prop obj (str ''__interrupt__''),
      get_prop (get_prop obj (str ''values'')) (str ''__interrupt__''),
      get_prop obj (str ''interrupts''),
      get_prop (get_prop obj (str ''values'')) (str ''interrupts'')]"

definition candidates :: "jsval \<Rightarrow> jsval list" where
  "candidates obj = filter truthy (locations obj)"

text \<open>The test that accepts a payload: \<^verbatim>\<open>payload.kind === "approval_request" || payload.question || payload.analysis_preview\<close>.\<close>

definition looks_like_interrupt :: "jsval \<Rightarrow> bool" where
  "looks_like_interrupt payload =
     (get_prop payload (str ''kind'') = Val (JStr approval_request)
      \<or> truthy (get_prop payload (str ''question''))
      \<or> truthy (get_prop payload (str ''analysis_preview'')))"

text \<open>
  The body of the loop over the candidates: \<open>Some payload\<close> when it returns the payload,
  \<open>None\<close> when it goes on to the next candidate.
\<close>

definition accept_candidate :: "jsval \<Rightarrow> jsval option" where
  "accept_candidate c =
     (let first = first_of c in
      if \<not> truthy first then None
      else let payload = js_coalesce (get_prop first (str ''value'')) first in
        if \<not> truthy payload then None
        else if looks_like_interrupt payload then Some payload
        else None)"

fun first_accepted :: "jsval list \<Rightarrow> jsval option" where
  "first_accepted [] = None"
| "first_accepted (c # cs) =
     (case accept_candidate c of Some payload \<Rightarrow> Some payload | None \<Rightarrow> first_accepted cs)"

definition extractInterruptPayload :: "jsval \<Rightarrow> error + jsval" where
  "extractInterruptPayload obj =
     (if \<not> truthy obj then Inr null
      else case first_accepted (candidates obj) of
        Some payload \<Rightarrow> Inr payload
      | None \<Rightarrow>
          (case js_String (js_or (get_prop obj (str ''status'')) (Val (JStr []))) of
             Inl e \<Rightarrow> Inl e
           | Inr s \<Rightarrow>
               if s = str ''interrupted'' then Inr (Val default_payload) else Inr null))"

definition extractFinalReportFromThread :: "jsval \<Rightarrow> jstring" where
  "extractFinalReportFromThread threadObj =
     (let values = get_prop threadObj (str ''values'') in
      if \<not> truthy values then []
      else case get_prop values (str ''final_report'') of
        Val (JStr s) \<Rightarrow> if trim s \<noteq> [] then s else []
      | _ \<Rightarrow> [])"

definition extractCurrentStepFromThread :: "jsval \<Rightarrow> error + jstring" where
  "extractCurrentStepFromThread threadObj =
     (let values = get_prop threadObj (str ''values'') in
      if \<not> truthy values then Inr []
      else js_String (js_or (get_prop values (str ''current_step'')) (Val (JStr []))))"

section \<open>Frames of the event stream\<close>

text \<open>
  \<^verbatim>\<open>JSON.parse\<close> is the platform's; it is a parameter of everything that calls it:
  \<open>Inr\<close> the parsed data, \<open>Inl\<close> the \<^verbatim>\<open>SyntaxError\<close> it throws.
\<close>

type_synonym json_parser = "jstring \<Rightarrow> error + json"

record frame =
  frame_id :: jstring
  frame_event :: jstring
  frame_data :: jsval

text \<open>The three variables the loop of \<^verbatim>\<open>parseSseFrame\<close> assigns.\<close>

record frame_fields =
  eventName :: jstring
  dataLines :: "jstring list"
  id_field :: jstring

definition parse_line :: "frame_fields \<Rightarrow> jstring \<Rightarrow> frame_fields" where
  "parse_line st line =
     (if line = [] then st
      else if startsWith line (str '':'') then st
      else if startsWith line (str ''event:'') then st\<lparr>eventName := trim (slice_from line 6)\<rparr>
      else if startsWith line (str ''data:'')
        then st\<lparr>dataLines := dataLines st @ [trim (slice_from line 5)]\<rparr>
      else if startsWith line (str ''id:'') then st\<lparr>id_field := trim (slice_from line 3)\<rparr>
      else st)"

text \<open>\<^verbatim>\<open>let data = dataRaw; try { data = JSON.parse(dataRaw); } catch { /* keep raw */ }\<close>.\<close>

definition parse_or_raw :: "json_parser \<Rightarrow> jstring \<Rightarrow> jsval" where
  "parse_or_raw JSON_parse dataRaw =
     (case JSON_parse dataRaw of Inr j \<Rightarrow> Val j | Inl e \<Rightarrow> Val (JStr dataRaw))"

definition parseSseFrame :: "json_parser \<Rightarrow> jstring \<Rightarrow> frame" where
  "parseSseFrame JSON_parse frameText =
     (let normalized = replace_crlf frameText;
          lines = split_lines normalized;
          st = foldl parse_line \<lparr>eventName = [], dataLines = [], id_field = []\<rparr> lines;
          dataRaw = join_lines (dataLines st);
          data = (if dataRaw \<noteq> [] then parse_or_raw JSON_parse dataRaw else Val (JStr dataRaw))
      in \<lparr>frame_id = id_field st, frame_event = eventName st, frame_data = data\<rparr>)"

section \<open>The stream reader\<close>

text \<open>
  \<^verbatim>\<open>new TextDecoder("utf-8")\<close> with \<^verbatim>\<open>decode(value, { stream: true })\<close> is the
  platform's: the UTF-8 decoder of the WHATWG Encoding Standard, which keeps the bytes of
  an unfinished character between calls, replaces a malformed sequence by U+FFFD and
  drops one leading byte order mark. The decoder reads byte by byte; \<open>utf8_byte\<close> is its
  handler for one byte, giving the new state and the code points it emits.
\<close>

record utf8_decoder =
  code_point :: nat
  bytes_seen :: nat
  bytes_needed :: nat
  lower_boundary :: nat
  upper_boundary :: nat
  bom_seen :: bool

definition new_decoder :: utf8_decoder where
  "new_decoder = \<lparr>code_point = 0, bytes_seen = 0, bytes_needed = 0,
     lower_boundary = 0x80, upper_boundary = 0xBF, bom_seen = False\<rparr>"

definition reset_decoder :: "utf8_decoder \<Rightarrow> utf8_decoder" where
  "reset_decoder d = d\<lparr>code_point := 0, bytes_seen := 0, bytes_needed := 0,
     lower_boundary := 0x80, upper_boundary := 0xBF\<rparr>"

text \<open>A byte read while no character is under way.\<close>

definition utf8_lead :: "utf8_decoder \<Rightarrow> nat \<Rightarrow> utf8_decoder \<times> nat list" where
  "utf8_lead d b =
     (if b \<le> 0x7F then (d, [b])
      else if 0xC2 \<le> b \<and> b \<le> 0xDF
        then (d\<lparr>bytes_needed := 1, code_point := b mod 0x20\<rparr>, [])
      else if 0xE0 \<le> b \<and> b \<le> 0xEF
        then (d\<lparr>lower_boundary := (if b = 0xE0 then 0xA0 else lower_boundary d),
                 upper_boundary := (if b = 0xED then 0x9F else upper_boundary d),
                 bytes_needed := 2, code_point := b mod 0x10\<rparr>, [])
      else if 0xF0 \<le> b \<and> b \<le> 0xF4
        then (d\<lparr>lower_boundary := (if b = 0xF0 then 0x90 else lower_boundary d),
                 upper_boundary := (if b = 0xF4 then 0x8F else upper_boundary d),
                 bytes_needed := 3, code_point := b mod 0x08\<rparr>, [])
      else (d, [0xFFFD]))"

definition utf8_byte :: "utf8_decoder \<Rightarrow> nat \<Rightarrow> utf8_decoder \<times> nat list" where
  "utf8_byte d b =
     (if bytes_needed d = 0 then utf8_lead d b
      else if b < lower_boundary d \<or> upper_boundary d < b
        then (let (d', out) = utf8_lead (reset_decoder d) b in (d', 0xFFFD # out))
      else
        (let cp = code_point d * 0x40 + b mod 0x40;
             seen = bytes_seen d + 1
         in if seen \<noteq> bytes_needed d
            then (d\<lparr>lower_boundary := 0x80, upper_boundary := 0xBF,
                     code_point := cp, bytes_seen := seen\<rparr>, [])
            else (reset_decoder d, [cp])))"

text \<open>The code units of a code point: itself, or a surrogate pair above U+FFFF.\<close>

definition utf16 :: "nat \<Rightarrow> jstring" where
  "utf16 cp =
     (if cp < 0x10000 then [of_nat cp]
      else [of_nat (0xD800 + (cp - 0x10000) div 0x400), of_nat (0xDC00 + (cp - 0x10000) mod 0x400)])"

text \<open>Emitting a code point: the first one of the stream is dropped when it is U+FEFF.\<close>

definition emit :: "utf8_decoder \<Rightarrow> nat \<Rightarrow> utf8_decoder \<times> jstring" where
  "emit d cp =
     (if \<not> bom_seen d \<and> cp = 0xFEFF then (d\<lparr>bom_seen := True\<rparr>, [])
      else (d\<lparr>bom_seen := True\<rparr>, utf16 cp))"

fun emit_all :: "utf8_decoder \<Rightarrow> nat list \<Rightarrow> utf8_decoder \<times> jstring" where
  "emit_all d [] = (d, [])"
| "emit_all d (cp # cps) =
     (let (d1, s1) = emit d cp; (d2, s2) = emit_all d1 cps in (d2, s1 @ s2))"

text \<open>\<^verbatim>\<open>decoder.decode(value, { stream: true })\<close> for one chunk of bytes.\<close>

fun decode :: "utf8_decoder \<Rightarrow> 8 word list \<Rightarrow> utf8_decoder \<times> jstring" where
  "decode d [] = (d, [])"
| "decode d (b # bs) =
     (let (d1, cps) = utf8_byte d (unat b);
          (d2, s1) = emit_all d1 cps;
          (d3, s2) = decode d2 bs
      in (d3, s1 @ s2))"

lemma indexOf_blank_bound: "indexOf_blank s = Some i \<Longrightarrow> i + 2 \<le> length s"
  by (induction s arbitrary: i rule: indexOf_blank.induct) (auto split: if_splits)

text \<open>
  The inner loop of \<^verbatim>\<open>runStream\<close>:
  \<^verbatim>\<open>while ((sepIndex = buffer.indexOf("\n\n")) !== -1) { ... }\<close>. It cuts the buffer at
  each blank line, skips a frame that is empty after trimming, and hands every other
  frame, parsed, to \<^verbatim>\<open>onEvent\<close>. The callback works on a state of its own and may throw
  (\<open>Some e\<close>); what it did to the state before throwing stays done. The result is the
  error, if any, the rest of the buffer, the event count and the callback's state.
\<close>

type_synonym 's callback = "frame \<Rightarrow> 's \<Rightarrow> error option \<times> 's"

function drain ::
  "json_parser \<Rightarrow> 's callback \<Rightarrow> jstring \<Rightarrow> nat \<Rightarrow> 's \<Rightarrow> error option \<times> jstring \<times> nat \<times> 's"
where
  "drain JSON_parse onEvent buffer eventCount s =
     (case indexOf_blank buffer of
        None \<Rightarrow> (None, buffer, eventCount, s)
      | Some sepIndex \<Rightarrow>
          (let frame = trim (take sepIndex buffer);
               buffer' = drop (sepIndex + 2) buffer
           in if frame = [] then drain JSON_parse onEvent buffer' eventCount s
              else (case onEvent (parseSseFrame JSON_parse frame) s of
                      (Some e, s') \<Rightarrow> (Some e, buffer', eventCount + 1, s')
                    | (None, s') \<Rightarrow> drain JSON_parse onEvent buffer' (eventCount + 1) s')))"
  by pat_completeness auto
termination
  by (relation "measure (\<lambda>(p, f, buffer, n, s). length buffer)")
     (auto dest: indexOf_blank_bound)

declare drain.simps [simp del]

text \<open>
  The outer loop, \<^verbatim>\<open>while (true) { const { value, done } = await reader.read(); ... }\<close>,
  over the chunks the reader delivers. The stream ends with \<^verbatim>\<open>done\<close> (\<open>None\<close>) or with a
  read that is rejected (\<open>Some e\<close>), as after an abort.
\<close>

record 's reader_state =
  decoder :: utf8_decoder
  buffer :: jstring
  eventCount :: nat
  handler_state :: 's

fun read_loop ::
  "json_parser \<Rightarrow> 's callback \<Rightarrow> 8 word list list \<Rightarrow> error option
     \<Rightarrow> 's reader_state \<Rightarrow> error option \<times> 's reader_state"
where
  "read_loop JSON_parse onEvent [] ending r = (ending, r)"
| "read_loop JSON_parse onEvent (chunk # chunks) ending r =
     (let (d, text) = decode (decoder r) chunk;
          buf = replace_crlf (buffer r @ text)
      in case drain JSON_parse onEvent buf (eventCount r) (handler_state r) of
           (Some e, buf', n, s) \<Rightarrow>
             (Some e, \<lparr>decoder = d, buffer = buf', eventCount = n, handler_state = s\<rparr>)
         | (None, buf', n, s) \<Rightarrow>
             read_loop JSON_parse onEvent chunks ending
               \<lparr>decoder = d, buffer = buf', eventCount = n, handler_state = s\<rparr>)"

definition new_reader :: "'s \<Rightarrow> 's reader_state" where
  "new_reader s = \<lparr>decoder = new_decoder, buffer = [], eventCount = 0, handler_state = s\<rparr>"

text \<open>
  The frames \<^verbatim>\<open>runStream\<close> hands to \<^verbatim>\<open>onEvent\<close> for a stream that delivers the given
  chunks and ends: \<^verbatim>\<open>onEvent\<close> is the callback that appends each frame to a list.
\<close>

definition collect :: "frame list callback" where
  "collect ev seen = (None, seen @ [ev])"

definition stream_frames :: "json_parser \<Rightarrow> 8 word list list \<Rightarrow> frame list" where
  "stream_frames JSON_parse chunks =
     handler_state (snd (read_loop JSON_parse collect chunks None (new_reader [])))"

text \<open>The bytes of an ASCII text, for writing chunks down.\<close>

definition bytes :: "string \<Rightarrow> 8 word list" where
  "bytes s = map (\<lambda>c. of_nat (of_char c)) s"

text \<open>
  Two properties of a text that the analysis of the reader uses: it holds no
  \<^verbatim>\<open>CR CR LF\<close>, and it holds no \<^verbatim>\<open>CR LF\<close>.
\<close>

fun no_cr_cr_lf :: "jstring \<Rightarrow> bool" where
  "no_cr_cr_lf (a # b # c # s) = (\<not> (a = CR \<and> b = CR \<and> c = LF) \<and> no_cr_cr_lf (b # c # s))"
| "no_cr_cr_lf s = True"

fun no_cr_lf :: "jstring \<Rightarrow> bool" where
  "no_cr_lf (a # b # s) = (\<not> (a = CR \<and> b = LF) \<and> no_cr_lf (b # s))"
| "no_cr_lf s = True"

section \<open>The session\<close>

text \<open>
  The module-level variables of \<^verbatim>\<open>app.js\<close> and what the page shows, as one record:
  \<^verbatim>\<open>uiState\<close>, \<^verbatim>\<open>threadId\<close>, \<^verbatim>\<open>currentController\<close>; the item \<^verbatim>\<open>agent_thread_id\<close> of
  \<^verbatim>\<open>localStorage\<close>; the error banner, the approval card with its question and preview,
  the report card with its text, and the \<^verbatim>\<open>disabled\<close> flags of the buttons. An
  \<^verbatim>\<open>AbortController\<close> is its identity, a number; \<open>controllers\<close> counts the ones created
  and \<open>aborted\<close> lists the ones whose \<^verbatim>\<open>abort()\<close> was called. \<open>requests\<close> lists the calls
  of \<^verbatim>\<open>fetch\<close> in their order.

  The question is the text of \<^verbatim>\<open>questionEl\<close>; the preview is the list of items
  \<^verbatim>\<open>renderPreview\<close> builds, each with its title and the value whose text it shows. The
  status panel, the work badge, the saved theme and the journal are written by the
  functions below as well. None of them is read back by these functions, so they are
  left out of the record, and the journal is modelled on its own above. What can throw
  in writing them is the conversion of a value of a response to a string, in building
  the text to write; the functions below have each such conversion where the code has
  it, unless the same value has been converted, and so cannot throw, before.
\<close>

datatype ui_state =
  St_idle | St_starting | St_waiting_approval | St_resuming | St_done | St_error

datatype run_body = Input jstring | Command_resume jstring

datatype request = POST_threads | GET_thread jstring | POST_runs_stream jstring run_body

record session =
  uiState :: ui_state
  threadId :: jsval
  stored_thread_id :: "jstring option"
  currentController :: "nat option"
  controllers :: nat
  aborted :: "nat list"
  requests :: "request list"
  errorBanner :: "jstring option"
  approvalCard :: bool
  question :: jstring
  preview :: "(jstring \<times> jsval) list"
  reportCard :: bool
  report :: jstring
  startBtn_disabled :: bool
  clearBtn_disabled :: bool
  decisionBtns_disabled :: bool

text \<open>\<^verbatim>\<open>setError(message)\<close>: an empty message hides the banner.\<close>

definition setError :: "jstring \<Rightarrow> session \<Rightarrow> session" where
  "setError message st = st\<lparr>errorBanner := (if message = [] then None else Some message)\<rparr>"

definition setUiState :: "ui_state \<Rightarrow> session \<Rightarrow> session" where
  "setUiState state st =
     (let busy = (state = St_starting \<or> state = St_resuming);
          waiting = (state = St_waiting_approval)
      in st\<lparr>uiState := state,
             startBtn_disabled := (busy \<or> waiting),
             clearBtn_disabled := (busy \<or> waiting),
             decisionBtns_disabled := (\<not> waiting)\<rparr>)"

definition resetViewForRun :: "session \<Rightarrow> session" where
  "resetViewForRun st = (setError [] st)\<lparr>approvalCard := False, reportCard := False\<rparr>"

text \<open>\<^verbatim>\<open>localStorage.getItem(THREAD_ID_KEY) || null\<close>.\<close>

definition restoreThreadId :: "session \<Rightarrow> jstring option" where
  "restoreThreadId st =
     (case stored_thread_id st of None \<Rightarrow> None | Some saved \<Rightarrow> if saved = [] then None else Some saved)"

text \<open>\<^verbatim>\<open>localStorage.setItem(THREAD_ID_KEY, id)\<close> stores the string of \<open>id\<close>.\<close>

definition persistThreadId :: "jsval \<Rightarrow> session \<Rightarrow> error option \<times> session" where
  "persistThreadId i st =
     (case js_String i of
        Inl e \<Rightarrow> (Some e, st)
      | Inr s \<Rightarrow> (None, st\<lparr>stored_thread_id := Some s\<rparr>))"

definition clearThreadId :: "session \<Rightarrow> session" where
  "clearThreadId st = st\<lparr>stored_thread_id := None\<rparr>"

section \<open>The calls to the server\<close>

text \<open>
  What \<^verbatim>\<open>await fetch(...)\<close> gives: a rejection, or a response with its \<^verbatim>\<open>ok\<close> flag and
  status, what \<^verbatim>\<open>res.text()\<close> and \<^verbatim>\<open>res.json()\<close> would give, and, for the stream, the
  chunks its reader delivers and how the stream ends.
\<close>

record response =
  ok :: bool
  status :: nat
  body_text :: "error + jstring"
  body_json :: "error + json"
  body_chunks :: "8 word list list"
  body_end :: "error option"

type_synonym fetched = "error + response"

text \<open>
  \<^verbatim>\<open>const text = await res.text(); throw new Error(`... failed: ${res.status} ${text}`)\<close>.
\<close>

definition http_failed :: "jstring \<Rightarrow> response \<Rightarrow> error" where
  "http_failed what res =
     (case body_text res of
        Inl e \<Rightarrow> e
      | Inr t \<Rightarrow> Error (what @ str '' failed: '' @ digits (status res) @ [0x20] @ t))"

definition createThread_request :: "session \<Rightarrow> session" where
  "createThread_request st = st\<lparr>requests := requests st @ [POST_threads]\<rparr>"

text \<open>\<^verbatim>\<open>createThread\<close>, from the answer to its request on.\<close>

definition createThread :: "fetched \<Rightarrow> error + jsval" where
  "createThread fetched =
     (case fetched of
        Inl e \<Rightarrow> Inl e
      | Inr res \<Rightarrow>
          if \<not> ok res then Inl (http_failed (str ''thread create'') res)
          else (case body_json res of
                  Inl e \<Rightarrow> Inl e
                | Inr data \<Rightarrow>
                    if \<not> truthy (get_prop (Val data) (str ''thread_id''))
                    then Inl (Error (str ''thread create response has no thread_id''))
                    else Inr (get_prop (Val data) (str ''thread_id''))))"

text \<open>
  \<^verbatim>\<open>ensureThreadIdFromServer\<close>. \<open>adopt_created_thread\<close> is its part after
  \<^verbatim>\<open>await createThread()\<close>: \<^verbatim>\<open>threadId = id; persistThreadId(threadId); return threadId\<close>.
\<close>

definition adopt_created_thread :: "fetched \<Rightarrow> session \<Rightarrow> (error + jsval) \<times> session" where
  "adopt_created_thread fetched st =
     (case createThread fetched of
        Inl e \<Rightarrow> (Inl e, st)
      | Inr i \<Rightarrow>
          (case persistThreadId i (st\<lparr>threadId := i\<rparr>) of
             (Some e, st') \<Rightarrow> (Inl e, st')
           | (None, st') \<Rightarrow> (Inr i, st')))"

definition ensureThreadIdFromServer ::
  "bool \<Rightarrow> fetched \<Rightarrow> session \<Rightarrow> (error + jsval) \<times> session" where
  "ensureThreadIdFromServer forceNew fetched st =
     (if \<not> forceNew \<and> truthy (threadId st) then (Inr (threadId st), st)
      else adopt_created_thread fetched (createThread_request st))"

text \<open>
  \<^verbatim>\<open>getThread(tid)\<close>: the request, whose URL holds the string of \<open>tid\<close>, and the
  function from the answer on.
\<close>

definition getThread_request :: "jsval \<Rightarrow> session \<Rightarrow> error option \<times> session" where
  "getThread_request tid st =
     (case js_String tid of
        Inl e \<Rightarrow> (Some e, st)
      | Inr s \<Rightarrow> (None, st\<lparr>requests := requests st @ [GET_thread s]\<rparr>))"

definition getThread :: "fetched \<Rightarrow> error + jsval" where
  "getThread fetched =
     (case fetched of
        Inl e \<Rightarrow> Inl e
      | Inr res \<Rightarrow>
          if \<not> ok res then Inl (http_failed (str ''get thread'') res)
          else (case body_json res of Inl e \<Rightarrow> Inl e | Inr data \<Rightarrow> Inr (Val data)))"

section \<open>Events of the stream\<close>

text \<open>
  \<^verbatim>\<open>renderPreview\<close>. The preview is emptied first; then each element \<open>x\<close> of the list
  becomes an item with the title \<^verbatim>\<open>String(x?.type || `Message ${idx + 1}`)\<close>, which can
  throw, and the text of \<^verbatim>\<open>x?.content ?? x\<close>; the items are put on the page together at
  the end.
\<close>

definition preview_title :: "nat \<Rightarrow> json \<Rightarrow> error + jstring" where
  "preview_title idx x =
     js_String (js_or (get_prop (Val x) (str ''type''))
                      (Val (JStr (str ''Message '' @ digits (idx + 1)))))"

fun preview_items :: "nat \<Rightarrow> json list \<Rightarrow> error + (jstring \<times> jsval) list" where
  "preview_items idx [] = Inr []"
| "preview_items idx (x # xs) =
     (case preview_title idx x of
        Inl e \<Rightarrow> Inl e
      | Inr title \<Rightarrow>
          (case preview_items (idx + 1) xs of
             Inl e \<Rightarrow> Inl e
           | Inr items \<Rightarrow>
               Inr ((title, js_coalesce (get_prop (Val x) (str ''content'')) (Val x)) # items)))"

text \<open>\<^verbatim>\<open>Array.isArray(analysisPreview) ? analysisPreview : []\<close>.\<close>

fun preview_list :: "jsval \<Rightarrow> json list" where
  "preview_list (Val (JArr xs)) = xs"
| "preview_list _ = []"

definition renderPreview :: "jsval \<Rightarrow> session \<Rightarrow> error option \<times> session" where
  "renderPreview analysisPreview st =
     (case preview_items 0 (preview_list analysisPreview) of
        Inl e \<Rightarrow> (Some e, st\<lparr>preview := []\<rparr>)
      | Inr items \<Rightarrow> (None, st\<lparr>preview := items\<rparr>))"

text \<open>
  What \<^verbatim>\<open>showApprovalIfNeeded\<close> and \<^verbatim>\<open>initAsync\<close> both do to show a payload:
  \<^verbatim>\<open>setUiState("waiting_approval"); show(approvalCard); questionEl.textContent = payload.question || "..."; renderPreview(payload.analysis_preview || [])\<close>.
  Setting the text converts the value to a string, which can throw.
\<close>

definition show_approval :: "jsval \<Rightarrow> session \<Rightarrow> error option \<times> session" where
  "show_approval payload st =
     (let st1 = (setUiState St_waiting_approval st)\<lparr>approvalCard := True\<rparr> in
      case js_String (js_or (get_prop payload (str ''question'')) (Val (JStr default_question))) of
        Inl e \<Rightarrow> (Some e, st1)
      | Inr q \<Rightarrow>
          renderPreview (js_or (get_prop payload (str ''analysis_preview'')) (Val (JArr [])))
            (st1\<lparr>question := q\<rparr>))"

definition showApprovalIfNeeded :: "jsval \<Rightarrow> session \<Rightarrow> error option \<times> session" where
  "showApprovalIfNeeded payload st =
     (if \<not> truthy payload then (None, st)
      else if uiState st = St_waiting_approval then (None, st)
      else show_approval payload st)"

text \<open>\<^verbatim>\<open>x && typeof x === "object"\<close>.\<close>

fun is_object :: "jsval \<Rightarrow> bool" where
  "is_object (Val (JArr xs)) = True"
| "is_object (Val (JObj kvs)) = True"
| "is_object _ = False"

text \<open>
  \<^verbatim>\<open>handleSseEvent\<close>. After the interrupt and the noise filter the function computes
  \<^verbatim>\<open>String(valuesObj.current_step)\<close>, which can throw; everything after that writes the
  work badge and the journal only, and converts no value that has not been converted
  here.
\<close>

definition handleSseEvent :: "session callback" where
  "handleSseEvent ev st =
     (let raw = frame_data ev; eventName = frame_event ev;
          interrupt = (if is_object raw then extractInterruptPayload raw else Inr null)
      in case interrupt of
           Inl e \<Rightarrow> (Some e, st)
         | Inr interruptPayload \<Rightarrow>
             if truthy interruptPayload then showApprovalIfNeeded interruptPayload st
             else if eventName = str ''metadata'' \<or> eventName = str ''ping''
                     \<or> eventName = str ''keepalive'' then (None, st)
             else if is_object raw then
               (let valuesObj = (if is_object (get_prop raw (str ''values''))
                                 then get_prop raw (str ''values'') else null)
                in if truthy (get_prop valuesObj (str ''current_step''))
                   then (case js_String (get_prop valuesObj (str ''current_step'')) of
                           Inl e \<Rightarrow> (Some e, st)
                         | Inr step \<Rightarrow> (None, st))
                   else (None, st))
             else (None, st))"

section \<open>Running a stream\<close>

text \<open>
  \<^verbatim>\<open>runStream\<close> up to its \<^verbatim>\<open>await fetch(...)\<close>: the controller in flight, if any, is
  aborted and not awaited; a new controller becomes the current one; the request is
  sent. The result is the new controller.
\<close>

definition runStream_open :: "jsval \<Rightarrow> run_body \<Rightarrow> session \<Rightarrow> (error + nat) \<times> session" where
  "runStream_open tid body st =
     (let st1 = (case currentController st of
                   None \<Rightarrow> st
                 | Some old \<Rightarrow> st\<lparr>aborted := old # aborted st\<rparr>);
          controller = controllers st1;
          st2 = st1\<lparr>controllers := controllers st1 + 1, currentController := Some controller\<rparr>
      in case js_String tid of
           Inl e \<Rightarrow> (Inl e, st2)
         | Inr s \<Rightarrow> (Inr controller, st2\<lparr>requests := requests st2 @ [POST_runs_stream s body]\<rparr>))"

text \<open>\<^verbatim>\<open>finally { if (currentController === controller) currentController = null; }\<close>.\<close>

definition release_controller :: "nat \<Rightarrow> session \<Rightarrow> session" where
  "release_controller controller st =
     (if currentController st = Some controller then st\<lparr>currentController := None\<rparr> else st)"

text \<open>
  \<^verbatim>\<open>runStream\<close> from the answer to its request on: a rejected or unsuccessful request
  throws before the \<^verbatim>\<open>try\<close>; otherwise the read loop runs with \<^verbatim>\<open>handleSseEvent\<close> as
  the callback, and the \<^verbatim>\<open>finally\<close> block after it, however it ends.
\<close>

definition runStream_read :: "json_parser \<Rightarrow> nat \<Rightarrow> fetched \<Rightarrow> session \<Rightarrow> error option \<times> session" where
  "runStream_read JSON_parse controller fetched st =
     (case fetched of
        Inl e \<Rightarrow> (Some e, st)
      | Inr res \<Rightarrow>
          if \<not> ok res then (Some (http_failed (str ''runs/stream'') res), st)
          else (let (e, r) = read_loop JSON_parse handleSseEvent (body_chunks res) (body_end res)
                               (new_reader st)
                in (e, release_controller controller (handler_state r))))"

section \<open>Start, resume, reset and startup\<close>

text \<open>The two texts shown in place of a report that is not there (Japanese).\<close>

definition no_report_after_start :: jstring where
  "no_report_after_start =
     [0xFF08, 0x6700, 0x7D42, 0x30EC, 0x30DD, 0x30FC, 0x30C8, 0x306F, 0x307E, 0x3060, 0x751F,
      0x6210, 0x3055, 0x308C, 0x3066, 0x3044, 0x307E, 0x305B, 0x3093, 0x3002, 0x627F, 0x8A8D,
      0x5F85, 0x3061, 0x306B, 0x306A, 0x3063, 0x3066, 0x3044, 0x306A, 0x3044, 0x5834, 0x5408,
      0x306F, 0x30B5, 0x30FC, 0x30D0, 0x5074, 0x30ED, 0x30B0, 0x3092, 0x78BA, 0x8A8D, 0x3057,
      0x3066, 0x304F, 0x3060, 0x3055, 0x3044, 0x3002, 0xFF09]"

definition no_report_after_resume :: jstring where
  "no_report_after_resume =
     [0xFF08, 0x6700, 0x7D42, 0x30EC, 0x30DD, 0x30FC, 0x30C8, 0x306F, 0x307E, 0x3060, 0x751F,
      0x6210, 0x3055, 0x308C, 0x3066, 0x3044, 0x307E, 0x305B, 0x3093, 0x3002, 0xFF09]"

text \<open>
  The end of \<^verbatim>\<open>start\<close> and of \<^verbatim>\<open>resume\<close>, from the answer to \<^verbatim>\<open>getThread\<close> on. The two
  functions differ here in the text shown for a missing report only.
\<close>

definition finish_run :: "jstring \<Rightarrow> fetched \<Rightarrow> session \<Rightarrow> error option \<times> session" where
  "finish_run no_report fetched st =
     (case getThread fetched of
        Inl e \<Rightarrow> (Some e, st)
      | Inr threadObj \<Rightarrow>
          (case extractInterruptPayload threadObj of
             Inl e \<Rightarrow> (Some e, st)
           | Inr payload \<Rightarrow>
               (case extractCurrentStepFromThread threadObj of
                  Inl e \<Rightarrow> (Some e, st)
                | Inr currentStep \<Rightarrow>
                    if truthy payload then showApprovalIfNeeded payload st
                    else (let final = extractFinalReportFromThread threadObj in
                          if final = []
                          then (None, (setUiState St_done st)\<lparr>reportCard := True, report := no_report\<rparr>)
                          else (None, (setUiState St_done st)\<lparr>reportCard := True, report := final\<rparr>)))))"

text \<open>The three answers of the server that one run consumes.\<close>

record run_env =
  thread_answer :: fetched
  stream_answer :: fetched
  state_answer :: fetched

text \<open>
  \<^verbatim>\<open>start\<close> and \<^verbatim>\<open>resume\<close> from the return of \<^verbatim>\<open>ensureThreadIdFromServer\<close> with \<open>tid\<close> up
  to the \<^verbatim>\<open>fetch\<close> of \<^verbatim>\<open>runStream\<close>: the state becomes \<open>busy\<close> (starting or resuming);
  the journal entry of the run is built, whose detail ends in \<^verbatim>\<open>thread_id=${tid}\<close>, a
  conversion of \<open>tid\<close> to a string that can throw; then \<^verbatim>\<open>runStream\<close> is called.
\<close>

definition begin_run :: "ui_state \<Rightarrow> jsval \<Rightarrow> run_body \<Rightarrow> session \<Rightarrow> (error + nat) \<times> session" where
  "begin_run busy tid body st =
     (let st1 = setUiState busy st in
      case js_String tid of
        Inl e \<Rightarrow> (Inl e, st1)
      | Inr printed \<Rightarrow> runStream_open tid body st1)"

text \<open>
  \<^verbatim>\<open>start\<close> and \<^verbatim>\<open>resume\<close> after \<^verbatim>\<open>ensureThreadIdFromServer\<close> has returned \<open>tid\<close>: the
  run begins, the stream is read, the thread is fetched and the run is finished.
\<close>

definition run_on_thread ::
  "json_parser \<Rightarrow> ui_state \<Rightarrow> run_body \<Rightarrow> jstring \<Rightarrow> run_env \<Rightarrow> jsval \<Rightarrow> session
     \<Rightarrow> error option \<times> session" where
  "run_on_thread JSON_parse busy body no_report env tid st =
     (case begin_run busy tid body st of
        (Inl e, st1) \<Rightarrow> (Some e, st1)
      | (Inr controller, st1) \<Rightarrow>
          (case runStream_read JSON_parse controller (stream_answer env) st1 of
             (Some e, st2) \<Rightarrow> (Some e, st2)
           | (None, st2) \<Rightarrow>
               (case getThread_request tid st2 of
                  (Some e, st3) \<Rightarrow> (Some e, st3)
                | (None, st3) \<Rightarrow> finish_run no_report (state_answer env) st3)))"

definition start :: "json_parser \<Rightarrow> jstring \<Rightarrow> run_env \<Rightarrow> session \<Rightarrow> error option \<times> session" where
  "start JSON_parse theme env st =
     (case ensureThreadIdFromServer True (thread_answer env) (resetViewForRun st) of
        (Inl e, st1) \<Rightarrow> (Some e, st1)
      | (Inr tid, st1) \<Rightarrow>
          run_on_thread JSON_parse St_starting (Input theme) no_report_after_start env tid st1)"

definition resume :: "json_parser \<Rightarrow> jstring \<Rightarrow> run_env \<Rightarrow> session \<Rightarrow> error option \<times> session" where
  "resume JSON_parse decision env st =
     (case ensureThreadIdFromServer False (thread_answer env) (resetViewForRun st) of
        (Inl e, st1) \<Rightarrow> (Some e, st1)
      | (Inr tid, st1) \<Rightarrow>
          run_on_thread JSON_parse St_resuming (Command_resume decision) no_report_after_resume
            env tid st1)"

text \<open>
  \<^verbatim>\<open>String(e?.message || e)\<close>. For a rejection of the platform the string is the one it
  carries; the text of the \<^verbatim>\<open>TypeError\<close> is the one V8 gives.
\<close>

fun error_message :: "error \<Rightarrow> jstring" where
  "error_message TypeError = str ''Cannot convert object to primitive value''"
| "error_message (Error m) = m"
| "error_message (Rejected m) = m"

text \<open>The \<^verbatim>\<open>catch\<close> block of \<^verbatim>\<open>runWithUi\<close>.\<close>

definition on_failure :: "error \<Rightarrow> session \<Rightarrow> session" where
  "on_failure e st = setError (error_message e) (setUiState St_error st)"

definition runWithUi :: "(session \<Rightarrow> error option \<times> session) \<Rightarrow> session \<Rightarrow> session" where
  "runWithUi fn st =
     (case fn (setError [] st) of
        (Some e, st') \<Rightarrow> on_failure e st'
      | (None, st') \<Rightarrow> st')"

definition handleDecision :: "json_parser \<Rightarrow> jstring \<Rightarrow> run_env \<Rightarrow> session \<Rightarrow> session" where
  "handleDecision JSON_parse decision env st =
     runWithUi (resume JSON_parse decision env)
       (setUiState St_resuming
          (st\<lparr>decisionBtns_disabled := True, startBtn_disabled := True, clearBtn_disabled := True\<rparr>))"

definition cancelInFlight :: "session \<Rightarrow> session" where
  "cancelInFlight st =
     (case currentController st of
        None \<Rightarrow> st
      | Some controller \<Rightarrow> st\<lparr>aborted := controller # aborted st\<rparr>)"

definition clearAll :: "session \<Rightarrow> session" where
  "clearAll st =
     setUiState St_idle
       (setError []
          ((clearThreadId (st\<lparr>threadId := null\<rparr>))\<lparr>approvalCard := False, reportCard := False\<rparr>))"

text \<open>
  \<^verbatim>\<open>initAsync\<close>, with the answer to its one request. Everything after the request is
  inside the \<^verbatim>\<open>try\<close>, whose \<^verbatim>\<open>catch\<close> discards the stored id.
\<close>

definition initAsync :: "fetched \<Rightarrow> session \<Rightarrow> session" where
  "initAsync fetched st =
     (let st1 = setUiState St_idle st in
      case restoreThreadId st1 of
        None \<Rightarrow> st1
      | Some savedTid \<Rightarrow>
          (let st2 = st1\<lparr>requests := requests st1 @ [GET_thread savedTid]\<rparr> in
           case getThread fetched of
             Inl e \<Rightarrow> clearThreadId st2
           | Inr t \<Rightarrow>
               (case extractInterruptPayload t of
                  Inl e \<Rightarrow> clearThreadId st2
                | Inr payload \<Rightarrow>
                    (case extractCurrentStepFromThread t of
                       Inl e \<Rightarrow> clearThreadId st2
                     | Inr currentStep \<Rightarrow>
                         if truthy payload
                         then (case show_approval payload (st2\<lparr>threadId := Val (JStr savedTid)\<rparr>) of
                                 (Some e, st3) \<Rightarrow> clearThreadId st3
                               | (None, st3) \<Rightarrow> st3)
                         else clearThreadId st2))))"

text \<open>The page as it is loaded, with the item of \<^verbatim>\<open>localStorage\<close> that a former visit left.\<close>

definition page_loaded :: "jstring option \<Rightarrow> session" where
  "page_loaded stored =
     \<lparr>uiState = St_idle, threadId = null, stored_thread_id = stored, currentController = None,
      controllers = 0, aborted = [], requests = [], errorBanner = None, approvalCard = False,
      question = [], preview = [], reportCard = False, report = [],
      startBtn_disabled = False, clearBtn_disabled = False, decisionBtns_disabled = True\<rparr>"

section \<open>Answers and schedules used in the examples\<close>

text \<open>A successful answer with a JSON body, and a successful stream of chunks that ends.\<close>

definition answer_json :: "json \<Rightarrow> fetched" where
  "answer_json j = Inr \<lparr>ok = True, status = 200, body_text = Inr [], body_json = Inr j,
     body_chunks = [], body_end = None\<rparr>"




text \<open>What the stream phase of a run leaves as it is.\<close>

definition thread_part :: "session \<Rightarrow> jsval \<times> jstring option \<times> request list" where
  "thread_part st = (threadId st, stored_thread_id st, requests st)"

section \<open>Properties of the log journal\<close>

lemma addLogEntry_take:
  "addLogEntry now a logItems = take MAX_LOG_ITEMS (new_entry now a # logItems)"
  by (simp add: addLogEntry_def Let_def)

lemma addLogEntries_take:
  "length logItems \<le> MAX_LOG_ITEMS \<Longrightarrow>
   addLogEntries calls logItems =
     take MAX_LOG_ITEMS (rev (map (\<lambda>(now, a). new_entry now a) calls) @ logItems)"
proof (induction calls arbitrary: logItems)
  case Nil
  then show ?case by simp
next
  case (Cons c calls)
  obtain now a where c: "c = (now, a)" by (cases c)
  let ?new = "rev (map (\<lambda>(now, a). new_entry now a) calls)"
  have len: "length (addLogEntry now a logItems) \<le> MAX_LOG_ITEMS"
    by (simp add: addLogEntry_take)
  have "addLogEntries (c # calls) logItems =
        take MAX_LOG_ITEMS (?new @ take MAX_LOG_ITEMS (new_entry now a # logItems))"
    using Cons.IH [OF len] by (simp add: c addLogEntry_take)
  also have "\<dots> = take MAX_LOG_ITEMS (?new @ new_entry now a # logItems)"
    by (simp add: take_add min_def)
  finally show ?case by (simp add: c)
qed

text \<open>
  C7. The journal starts empty (\<^verbatim>\<open>let logItems = []\<close>). After any sequence of appends it
  holds at most \<open>MAX_LOG_ITEMS = 80\<close> entries, and they are exactly the most recent
  appends, newest first: the entry of the last call is at the front, and what does not
  fit is dropped from the back, where the oldest entries are.
\<close>

theorem journal_bounded_newest_first:
  "length (addLogEntries calls []) \<le> 80 \<and>
   addLogEntries calls [] = take 80 (rev (map (\<lambda>(now, a). new_entry now a) calls)) \<and>
   hd (addLogEntry now a logItems) = new_entry now a \<and>
   tl (addLogEntry now a logItems) = take 79 logItems"
proof -
  have "addLogEntries calls [] = take MAX_LOG_ITEMS (rev (map (\<lambda>(now, a). new_entry now a) calls))"
    using addLogEntries_take [of "[]" calls] by simp
  then show ?thesis
    by (simp add: addLogEntry_take MAX_LOG_ITEMS_def)
qed

section \<open>Properties of the interrupt payload\<close>

lemma looks_like_interrupt_iff:
  "looks_like_interrupt x \<longleftrightarrow>
     (\<exists>kvs. x = Val (JObj kvs) \<and>
        (map_of kvs (str ''kind'') = Some (JStr approval_request)
         \<or> (\<exists>q. map_of kvs (str ''question'') = Some q \<and> truthy (Val q))
         \<or> (\<exists>a. map_of kvs (str ''analysis_preview'') = Some a \<and> truthy (Val a))))"
proof (cases x)
  case (Val j)
  have k: "str ''question'' \<noteq> str ''values''" "str ''analysis_preview'' \<noteq> str ''values''"
     "str ''kind'' \<noteq> str ''values''"
    by (simp_all add: str_def)
  show ?thesis
    by (cases j) (auto simp: Val k looks_like_interrupt_def split: option.splits)
qed (simp_all add: looks_like_interrupt_def)

lemma first_accepted_None:
  "(\<forall>c\<in>set cs. accept_candidate c = None) \<Longrightarrow> first_accepted cs = None"
  by (induction cs) auto

lemma first_accepted_filter_skip:
  "(\<forall>c\<in>set cs. truthy c \<longrightarrow> accept_candidate c = None) \<Longrightarrow>
   first_accepted (filter truthy (cs @ ds)) = first_accepted (filter truthy ds)"
  by (induction cs) auto

lemma accept_candidate_falsy: "\<not> truthy c \<Longrightarrow> accept_candidate c = None"
  by (cases c rule: first_of.cases) (auto simp: accept_candidate_def)

lemma accept_plain:
  assumes "looks_like_interrupt (Val (JObj p))" "nullish (get_prop (Val (JObj p)) (str ''value''))"
  shows "accept_candidate (Val (JObj p)) = Some (Val (JObj p))"
    and "accept_candidate (Val (JArr (JObj p # rest))) = Some (Val (JObj p))"
  using assms by (simp_all add: accept_candidate_def js_coalesce_def)

lemma accept_wrapped:
  assumes "looks_like_interrupt (Val (JObj p))" "map_of w (str ''value'') = Some (JObj p)"
  shows "accept_candidate (Val (JObj w)) = Some (Val (JObj p))"
    and "accept_candidate (Val (JArr (JObj w # rest))) = Some (Val (JObj p))"
  using assms by (simp_all add: accept_candidate_def js_coalesce_def)

lemma location_truthy_obj:
  assumes "i < 4" "locations obj ! i = Val c"
  shows "truthy obj"
proof -
  have "i = 0 \<or> i = 1 \<or> i = 2 \<or> i = 3" using assms(1) by arith
  then show ?thesis
    using assms(2)
    by (cases obj rule: truthy.cases) (auto simp: locations_def split: if_splits)
qed

lemma first_accepted_at:
  assumes i: "i < length locs" and c: "accept_candidate (locs ! i) = Some payload"
    and e: "\<forall>j<i. truthy (locs ! j) \<longrightarrow> accept_candidate (locs ! j) = None"
  shows "first_accepted (filter truthy locs) = Some payload"
proof -
  have t: "truthy (locs ! i)" using c accept_candidate_falsy by fastforce
  have locs: "locs = take i locs @ (locs ! i) # drop (Suc i) locs"
    using i by (simp add: id_take_nth_drop)
  have "\<forall>c\<in>set (take i locs). truthy c \<longrightarrow> accept_candidate c = None"
    using e i by (auto simp: in_set_conv_nth)
  then have "first_accepted (filter truthy (take i locs @ (locs ! i) # drop (Suc i) locs)) =
        first_accepted (filter truthy ((locs ! i) # drop (Suc i) locs))"
    by (rule first_accepted_filter_skip)
  with locs have "first_accepted (filter truthy locs) =
        first_accepted (filter truthy ((locs ! i) # drop (Suc i) locs))"
    by simp
  then show ?thesis using t c by simp
qed

lemma extract_found:
  assumes "i < 4" "locations obj ! i = Val c" "accept_candidate (Val c) = Some payload"
   "\<forall>j<i. truthy (locations obj ! j) \<longrightarrow> accept_candidate (locations obj ! j) = None"
  shows "extractInterruptPayload obj = Inr payload"
proof -
  have "length (locations obj) = 4" by (simp add: locations_def)
  then have "first_accepted (filter truthy (locations obj)) = Some payload"
    using assms first_accepted_at [of i "locations obj" payload] by simp
  then show ?thesis
    using location_truthy_obj [OF assms(1,2)]
    by (simp add: extractInterruptPayload_def candidates_def)
qed

lemma all_less_1: "P 0 \<Longrightarrow> \<forall>j<1. P (j::nat)"
  by simp

lemma all_less_2: "P 0 \<Longrightarrow> P 1 \<Longrightarrow> \<forall>j<2. P (j::nat)"
  by (auto simp: less_2_cases_iff)

lemma all_less_3: "P 0 \<Longrightarrow> P 1 \<Longrightarrow> P 2 \<Longrightarrow> \<forall>j<3. P (j::nat)"
  by (auto simp: less_Suc_eq numeral_3_eq_3 numeral_2_eq_2)

text \<open>
  C2, as the code has it. Let \<open>JObj p\<close> be a payload the code accepts: an object whose
  \<open>kind\<close> is \<^verbatim>\<open>"approval_request"\<close>, or whose \<open>question\<close> is truthy (for a string:
  non-empty), or whose \<open>analysis_preview\<close> is truthy (any array or object, also an empty
  one; not \<^verbatim>\<open>null\<close>, \<^verbatim>\<open>""\<close>, \<open>0\<close> or \<^verbatim>\<open>false\<close>). Put it at any of the four locations
  (index \<open>i\<close> of \<open>locations\<close>), where no earlier location holds an accepted candidate:
  either as it is or as the first element of a list, provided it has no \<open>value\<close> property
  of its own other than \<^verbatim>\<open>null\<close>; or under the \<open>value\<close> key of a wrapper object \<open>w\<close>,
  itself alone or first in a list. Then \<open>extractInterruptPayload\<close> returns exactly that
  payload. The second conjunct is the validity test of the code, spelled out.
\<close>

theorem interrupt_payload_same_at_every_location:
  "(i < 4 \<and> locations obj ! i = Val c
      \<and> (\<forall>j<i. truthy (locations obj ! j) \<longrightarrow> accept_candidate (locations obj ! j) = None)
      \<and> looks_like_interrupt (Val (JObj p))
      \<and> ((c = JObj p \<or> c = JArr (JObj p # rest))
            \<and> nullish (get_prop (Val (JObj p)) (str ''value''))
          \<or> (c = JObj w \<or> c = JArr (JObj w # rest))
            \<and> map_of w (str ''value'') = Some (JObj p))
     \<longrightarrow> extractInterruptPayload obj = Inr (Val (JObj p)))
   \<and> (looks_like_interrupt x \<longleftrightarrow>
        (\<exists>kvs. x = Val (JObj kvs) \<and>
          (map_of kvs (str ''kind'') = Some (JStr approval_request)
           \<or> (\<exists>q. map_of kvs (str ''question'') = Some q \<and> truthy (Val q))
           \<or> (\<exists>a. map_of kvs (str ''analysis_preview'') = Some a \<and> truthy (Val a)))))"
proof (intro conjI impI)
  assume a: "i < 4 \<and> locations obj ! i = Val c
      \<and> (\<forall>j<i. truthy (locations obj ! j) \<longrightarrow> accept_candidate (locations obj ! j) = None)
      \<and> looks_like_interrupt (Val (JObj p))
      \<and> ((c = JObj p \<or> c = JArr (JObj p # rest))
            \<and> nullish (get_prop (Val (JObj p)) (str ''value''))
          \<or> (c = JObj w \<or> c = JArr (JObj w # rest))
            \<and> map_of w (str ''value'') = Some (JObj p))"
  then have "accept_candidate (Val c) = Some (Val (JObj p))"
    using accept_plain(1) [of p] accept_plain(2) [of p rest]
      accept_wrapped(1) [of p w] accept_wrapped(2) [of p w rest] by blast
  then show "extractInterruptPayload obj = Inr (Val (JObj p))"
    using a extract_found [of i obj c "Val (JObj p)"] by blast
next
  show "looks_like_interrupt x \<longleftrightarrow>
        (\<exists>kvs. x = Val (JObj kvs) \<and>
          (map_of kvs (str ''kind'') = Some (JStr approval_request)
           \<or> (\<exists>q. map_of kvs (str ''question'') = Some q \<and> truthy (Val q))
           \<or> (\<exists>a. map_of kvs (str ''analysis_preview'') = Some a \<and> truthy (Val a))))"
    by (rule looks_like_interrupt_iff)
qed

text \<open>
  The payload \<^verbatim>\<open>{"question": "ok?"}\<close> at each of the four locations, in each of the four
  shapes: \<^verbatim>\<open>{"__interrupt__": P}\<close>, \<^verbatim>\<open>{"values": {"__interrupt__": [P]}}\<close>,
  \<^verbatim>\<open>{"interrupts": {"value": P}}\<close> and \<^verbatim>\<open>{"values": {"interrupts": [{"value": P}]}}\<close>.
\<close>

theorem interrupt_payload_same_at_every_location_witness:
  "extractInterruptPayload (Val (JObj [(str ''__interrupt__'', JObj [(str ''question'', JStr (str ''ok?''))])]))
     = Inr (Val (JObj [(str ''question'', JStr (str ''ok?''))]))
   \<and> extractInterruptPayload
       (Val (JObj [(str ''values'', JObj [(str ''__interrupt__'', JArr [JObj [(str ''question'', JStr (str ''ok?''))]])])]))
     = Inr (Val (JObj [(str ''question'', JStr (str ''ok?''))]))
   \<and> extractInterruptPayload
       (Val (JObj [(str ''interrupts'', JObj [(str ''value'', JObj [(str ''question'', JStr (str ''ok?''))])])]))
     = Inr (Val (JObj [(str ''question'', JStr (str ''ok?''))]))
   \<and> extractInterruptPayload
       (Val (JObj [(str ''values'',
          JObj [(str ''interrupts'', JArr [JObj [(str ''value'', JObj [(str ''question'', JStr (str ''ok?''))])]])])]))
     = Inr (Val (JObj [(str ''question'', JStr (str ''ok?''))]))"
proof -
  let ?p = "[(str ''question'', JStr (str ''ok?''))]"
  let ?w = "[(str ''value'', JObj ?p)]"
  let ?o0 = "Val (JObj [(str ''__interrupt__'', JObj ?p)])"
  let ?o1 = "Val (JObj [(str ''values'', JObj [(str ''__interrupt__'', JArr [JObj ?p])])])"
  let ?o2 = "Val (JObj [(str ''interrupts'', JObj ?w)])"
  let ?o3 = "Val (JObj [(str ''values'', JObj [(str ''interrupts'', JArr [JObj ?w])])])"
  have v: "looks_like_interrupt (Val (JObj ?p))"
    by (simp add: looks_like_interrupt_def str_def)
  have n: "nullish (get_prop (Val (JObj ?p)) (str ''value''))"
    by (simp add: str_def)
  have w: "map_of ?w (str ''value'') = Some (JObj ?p)"
    by simp
  have l0: "locations ?o0 ! 0 = Val (JObj ?p)"
    by (simp add: locations_def)
  have l1: "locations ?o1 ! 1 = Val (JArr [JObj ?p])" "\<not> truthy (locations ?o1 ! 0)"
    by (simp_all add: locations_def str_def)
  have l2: "locations ?o2 ! 2 = Val (JObj ?w)" "\<not> truthy (locations ?o2 ! 0)"
      "\<not> truthy (locations ?o2 ! 1)"
    by (simp_all add: locations_def str_def)
  have l3: "locations ?o3 ! 3 = Val (JArr [JObj ?w])" "\<not> truthy (locations ?o3 ! 0)"
      "\<not> truthy (locations ?o3 ! 1)" "\<not> truthy (locations ?o3 ! 2)"
    by (simp_all add: locations_def str_def)
  have 0: "extractInterruptPayload ?o0 = Inr (Val (JObj ?p))"
  proof (rule mp [OF interrupt_payload_same_at_every_location
            [where i=0 and obj="?o0" and c="JObj ?p" and p="?p" and rest="[]" and w="?w",
             THEN conjunct1]], intro conjI)
    show "(JObj ?p = JObj ?p \<or> JObj ?p = JArr [JObj ?p])
            \<and> nullish (get_prop (Val (JObj ?p)) (str ''value''))
          \<or> (JObj ?p = JObj ?w \<or> JObj ?p = JArr [JObj ?w])
            \<and> map_of ?w (str ''value'') = Some (JObj ?p)"
      using n by blast
  qed (rule l0 v | simp)+
  have 1: "extractInterruptPayload ?o1 = Inr (Val (JObj ?p))"
  proof (rule mp [OF interrupt_payload_same_at_every_location
            [where i=1 and obj="?o1" and c="JArr [JObj ?p]" and p="?p" and rest="[]" and w="?w",
             THEN conjunct1]], intro conjI)
    show "(JArr [JObj ?p] = JObj ?p \<or> JArr [JObj ?p] = JArr [JObj ?p])
            \<and> nullish (get_prop (Val (JObj ?p)) (str ''value''))
          \<or> (JArr [JObj ?p] = JObj ?w \<or> JArr [JObj ?p] = JArr [JObj ?w])
            \<and> map_of ?w (str ''value'') = Some (JObj ?p)"
      using n by blast
    show "\<forall>j<1. truthy (locations ?o1 ! j) \<longrightarrow> accept_candidate (locations ?o1 ! j) = None"
      by (rule all_less_1) (simp_all only: l1 simp_thms)
  qed (rule l1 v | simp)+
  have 2: "extractInterruptPayload ?o2 = Inr (Val (JObj ?p))"
  proof (rule mp [OF interrupt_payload_same_at_every_location
            [where i=2 and obj="?o2" and c="JObj ?w" and p="?p" and rest="[]" and w="?w",
             THEN conjunct1]], intro conjI)
    show "(JObj ?w = JObj ?p \<or> JObj ?w = JArr [JObj ?p])
            \<and> nullish (get_prop (Val (JObj ?p)) (str ''value''))
          \<or> (JObj ?w = JObj ?w \<or> JObj ?w = JArr [JObj ?w])
            \<and> map_of ?w (str ''value'') = Some (JObj ?p)"
      using w by blast
    show "\<forall>j<2. truthy (locations ?o2 ! j) \<longrightarrow> accept_candidate (locations ?o2 ! j) = None"
      by (rule all_less_2) (simp_all only: l2 simp_thms)
  qed (rule l2 v | simp)+
  have 3: "extractInterruptPayload ?o3 = Inr (Val (JObj ?p))"
  proof (rule mp [OF interrupt_payload_same_at_every_location
            [where i=3 and obj="?o3" and c="JArr [JObj ?w]" and p="?p" and rest="[]" and w="?w",
             THEN conjunct1]], intro conjI)
    show "(JArr [JObj ?w] = JObj ?p \<or> JArr [JObj ?w] = JArr [JObj ?p])
            \<and> nullish (get_prop (Val (JObj ?p)) (str ''value''))
          \<or> (JArr [JObj ?w] = JObj ?w \<or> JArr [JObj ?w] = JArr [JObj ?w])
            \<and> map_of ?w (str ''value'') = Some (JObj ?p)"
      using w by blast
    show "\<forall>j<3. truthy (locations ?o3 ! j) \<longrightarrow> accept_candidate (locations ?o3 ! j) = None"
      by (rule all_less_3) (simp_all only: l3 simp_thms)
  qed (rule l3 v | simp)+
  from 0 1 2 3 show ?thesis by (intro conjI)
qed

text \<open>
  C2 as it is written fails in two places. A payload with a \<open>value\<close> property of its own,
  \<^verbatim>\<open>{"kind": "approval_request", "value": 1}\<close>, put at \<^verbatim>\<open>__interrupt__\<close> as it is, is
  unwrapped to \<open>1\<close> and not found; and a payload that has an \<open>analysis_preview\<close> field
  holding \<^verbatim>\<open>null\<close> is not valid for the code.
\<close>

theorem interrupt_payload_counterexample:
  "extractInterruptPayload
     (Val (JObj [(str ''__interrupt__'', JObj [(str ''kind'', JStr approval_request), (str ''value'', JNum (Nonzero (str ''1'')))])]))
     = Inr null
   \<and> get_prop (Val (JObj [(str ''kind'', JStr approval_request), (str ''value'', JNum (Nonzero (str ''1'')))])) (str ''kind'')
     = Val (JStr approval_request)
   \<and> extractInterruptPayload (Val (JObj [(str ''__interrupt__'', JObj [(str ''analysis_preview'', JNull)])]))
     = Inr null
   \<and> map_of [(str ''analysis_preview'', JNull)] (str ''analysis_preview'') = Some JNull"
  by (simp add: extractInterruptPayload_def candidates_def locations_def accept_candidate_def
      js_coalesce_def js_or_def looks_like_interrupt_def str_def)

text \<open>
  C5, as the code has it. Take a parsed object none of whose candidates is accepted, and
  let \<open>s\<close> be \<^verbatim>\<open>String(obj.status || "")\<close>. If \<open>s\<close> is \<^verbatim>\<open>"interrupted"\<close> the result is
  the default payload: kind \<^verbatim>\<open>"approval_request"\<close>, the fixed question, and the options
  \<^verbatim>\<open>["y", "n", "retry"]\<close>, which are the three decision tokens. Otherwise the result is
  \<^verbatim>\<open>null\<close>. The status that is the string \<^verbatim>\<open>"interrupted"\<close> itself is one such case.
\<close>

theorem default_payload_when_status_interrupted:
  "((\<forall>c\<in>set (candidates (Val (JObj kvs))). accept_candidate c = None)
     \<and> js_String (js_or (get_prop (Val (JObj kvs)) (str ''status'')) (Val (JStr []))) = Inr s
    \<longrightarrow> extractInterruptPayload (Val (JObj kvs))
          = Inr (if s = str ''interrupted'' then Val default_payload else null))
   \<and> js_String (js_or (Val (JStr (str ''interrupted''))) (Val (JStr []))) = Inr (str ''interrupted'')
   \<and> get_prop (Val default_payload) (str ''kind'') = Val (JStr approval_request)
   \<and> get_prop (Val default_payload) (str ''question'') = Val (JStr default_question)
   \<and> get_prop (Val default_payload) (str ''options'')
       = Val (JArr [JStr (str ''y''), JStr (str ''n''), JStr (str ''retry'')])
   \<and> set [str ''y'', str ''n'', str ''retry''] = {str ''y'', str ''retry'', str ''n''}"
proof (intro conjI impI)
  assume "(\<forall>c\<in>set (candidates (Val (JObj kvs))). accept_candidate c = None)
     \<and> js_String (js_or (get_prop (Val (JObj kvs)) (str ''status'')) (Val (JStr []))) = Inr s"
  then show "extractInterruptPayload (Val (JObj kvs))
          = Inr (if s = str ''interrupted'' then Val default_payload else null)"
    by (simp add: extractInterruptPayload_def first_accepted_None)
next
  show "js_String (js_or (Val (JStr (str ''interrupted''))) (Val (JStr []))) = Inr (str ''interrupted'')"
    by (simp add: js_or_def str_def)
next
  show "set [str ''y'', str ''n'', str ''retry''] = {str ''y'', str ''retry'', str ''n''}"
    by auto
qed (simp_all add: default_payload_def str_def)

text \<open>
  The thread \<^verbatim>\<open>{"status": "interrupted"}\<close> gets the default payload, the thread
  \<^verbatim>\<open>{"status": "idle"}\<close> gets \<^verbatim>\<open>null\<close>.
\<close>

theorem default_payload_when_status_interrupted_witness:
  "extractInterruptPayload (Val (JObj [(str ''status'', JStr (str ''interrupted''))]))
     = Inr (Val default_payload)
   \<and> extractInterruptPayload (Val (JObj [(str ''status'', JStr (str ''idle''))])) = Inr null"
proof -
  have a: "extractInterruptPayload (Val (JObj [(str ''status'', JStr (str ''interrupted''))]))
     = Inr (Val default_payload)"
    using default_payload_when_status_interrupted
            [of "[(str ''status'', JStr (str ''interrupted''))]" "str ''interrupted''"]
    by (simp add: candidates_def locations_def js_or_def str_def)
  have b: "extractInterruptPayload (Val (JObj [(str ''status'', JStr (str ''idle''))])) = Inr null"
    using default_payload_when_status_interrupted
            [of "[(str ''status'', JStr (str ''idle''))]" "str ''idle''"]
    by (simp add: candidates_def locations_def js_or_def str_def)
  from a b show ?thesis by blast
qed

text \<open>
  C5 as it is written fails for a status that is not the string but prints as it: the
  thread \<^verbatim>\<open>{"status": ["interrupted"]}\<close> has no candidate and a status field that is an
  array, and still gets the default payload, not \<^verbatim>\<open>null\<close>.
\<close>

theorem default_payload_counterexample:
  "extractInterruptPayload (Val (JObj [(str ''status'', JArr [JStr (str ''interrupted'')])]))
     = Inr (Val default_payload)
   \<and> candidates (Val (JObj [(str ''status'', JArr [JStr (str ''interrupted'')])])) = []
   \<and> get_prop (Val (JObj [(str ''status'', JArr [JStr (str ''interrupted'')])])) (str ''status'')
       \<noteq> Val (JStr (str ''interrupted''))
   \<and> Val default_payload \<noteq> null"
  by (simp add: extractInterruptPayload_def candidates_def locations_def js_or_def str_def
      default_payload_def)

section \<open>Properties of the frame parser and the stream reader\<close>

lemma starts_with_data:
  assumes "startsWith l (str ''data:'')"
  shows "l \<noteq> []" "\<not> startsWith l (str '':'')" "\<not> startsWith l (str ''event:'')"
proof -
  obtain r where l: "l = str ''data:'' @ r"
    using assms by (metis append_take_drop_id startsWith_def)
  show "l \<noteq> []" "\<not> startsWith l (str '':'')" "\<not> startsWith l (str ''event:'')"
    by (simp_all add: l startsWith_def str_def)
qed

lemma dataLines_parse_line:
  "dataLines (parse_line st l) =
     (if startsWith l (str ''data:'') then dataLines st @ [trim (slice_from l 5)] else dataLines st)"
  using starts_with_data [of l] by (simp add: parse_line_def)

lemma dataLines_foldl:
  "dataLines (foldl parse_line st lines) =
     dataLines st @
     map (\<lambda>l. trim (slice_from l 5)) (filter (\<lambda>l. startsWith l (str ''data:'')) lines)"
  by (induction lines arbitrary: st) (simp_all add: dataLines_parse_line)

text \<open>
  C6. \<open>parseSseFrame\<close> is a total function: every string operation it uses is total, and
  the one call that can throw, \<^verbatim>\<open>JSON.parse\<close>, is inside the \<^verbatim>\<open>try\<close>. For every frame
  text and every behaviour of \<^verbatim>\<open>JSON.parse\<close>, the data of the frame it returns is
  determined as follows: the lines that start with \<^verbatim>\<open>data:\<close>, each without that prefix
  and trimmed, are joined in their order with line feeds; an empty join is the data as it
  is; a non-empty one is parsed, and where the parser throws the joined string itself is
  the data.
\<close>

theorem malformed_data_kept_raw:
  "frame_data (parseSseFrame JSON_parse frameText) =
     (let dataRaw = join_lines (map (\<lambda>l. trim (slice_from l 5))
                      (filter (\<lambda>l. startsWith l (str ''data:''))
                         (split_lines (replace_crlf frameText))))
      in if dataRaw = [] then Val (JStr [])
         else case JSON_parse dataRaw of Inr j \<Rightarrow> Val j | Inl e \<Rightarrow> Val (JStr dataRaw))"
  by (simp add: parseSseFrame_def Let_def dataLines_foldl parse_or_raw_def)

text \<open>
  The frame \<^verbatim>\<open>event: updates / data: {oops / data: 1\<close> with a parser that throws: the data
  is the string \<^verbatim>\<open>{oops\n1\<close>.
\<close>

theorem malformed_data_kept_raw_witness:
  "frame_data (parseSseFrame (\<lambda>s. Inl (Rejected []))
      (str ''event: updates'' @ [LF] @ str ''data: {oops'' @ [LF] @ str ''data: 1''))
     = Val (JStr (str ''{oops'' @ [LF] @ str ''1''))"
  using malformed_data_kept_raw
          [of "\<lambda>s. Inl (Rejected [])"
              "str ''event: updates'' @ [LF] @ str ''data: {oops'' @ [LF] @ str ''data: 1''"]
  by (simp add: str_def LF_def CR_def startsWith_def slice_from_def trim_def is_js_space_def)

text \<open>
  C1 does not hold of the reader. The bytes of
  \<^verbatim>\<open>data: 1 LF CR CR LF data: 2 LF LF\<close> give one frame when they arrive in one chunk
  and two frames when the chunk boundary falls after \<^verbatim>\<open>CR CR LF\<close>: the buffer is
  normalised again after every chunk, so the \<^verbatim>\<open>CR LF\<close> that the first pass left behind
  becomes a second line feed, and with it a blank line, on the next pass. This holds for
  every behaviour of \<^verbatim>\<open>JSON.parse\<close>.
\<close>

theorem frames_depend_on_chunk_boundary:
  "stream_frames JSON_parse
     [bytes ''data: 1'' @ [0x0A, 0x0D, 0x0D, 0x0A] @ bytes ''data: 2'' @ [0x0A, 0x0A]]
     = [\<lparr>frame_id = [], frame_event = [],
          frame_data = parse_or_raw JSON_parse [0x31, 0x0A, 0x32]\<rparr>]
   \<and> stream_frames JSON_parse
     [bytes ''data: 1'' @ [0x0A, 0x0D, 0x0D, 0x0A], bytes ''data: 2'' @ [0x0A, 0x0A]]
     = [\<lparr>frame_id = [], frame_event = [], frame_data = parse_or_raw JSON_parse [0x31]\<rparr>,
        \<lparr>frame_id = [], frame_event = [], frame_data = parse_or_raw JSON_parse [0x32]\<rparr>]"
  by (simp add: stream_frames_def new_reader_def bytes_def str_def new_decoder_def
      utf8_byte_def utf8_lead_def emit_def utf16_def drain.simps collect_def parseSseFrame_def
      parse_line_def startsWith_def slice_from_def trim_def is_js_space_def LF_def CR_def Let_def)

text \<open>
  The reader on text without \<^verbatim>\<open>CR CR LF\<close>. Decoding is incremental; normalising a
  buffer that was normalised before changes nothing but its new end; and the inner loop
  treats the part of the buffer it consumes the same way whatever follows it.
\<close>

lemma decode_append:
  "decode d (xs @ ys) =
     (case decode d xs of (d1, s1) \<Rightarrow> case decode d1 ys of (d2, s2) \<Rightarrow> (d2, s1 @ s2))"
  by (induction xs arbitrary: d) (auto simp: Let_def split: prod.splits)

lemma no_cr_cr_lf_prefix: "no_cr_cr_lf (s @ t) \<Longrightarrow> no_cr_cr_lf s"
  by (induction s rule: no_cr_cr_lf.induct) auto

lemma no_cr_cr_lf_tl: "no_cr_cr_lf (a # s) \<Longrightarrow> no_cr_cr_lf s"
  by (cases s rule: no_cr_cr_lf.cases) auto

lemma no_cr_lf_prefix: "no_cr_lf (s @ t) \<Longrightarrow> no_cr_lf s"
  by (induction s rule: no_cr_lf.induct) auto

lemma CR_neq_LF: "CR \<noteq> LF" "LF \<noteq> CR"
  by (simp_all add: CR_def LF_def)

lemma replace_crlf_Cons: "c \<noteq> CR \<Longrightarrow> replace_crlf (c # s) = c # replace_crlf s"
  by (cases s) auto

lemma replace_crlf_hd:
  "replace_crlf (d # s) = LF # r \<Longrightarrow> d = LF \<or> (d = CR \<and> (\<exists>s'. s = LF # s'))"
  by (cases s) (auto split: if_splits)

lemma replace_crlf_not_Nil: "replace_crlf (d # s) \<noteq> []"
  by (cases s) auto

lemma no_cr_lf_replace: "no_cr_cr_lf s \<Longrightarrow> no_cr_lf (replace_crlf s)"
proof (induction s rule: replace_crlf.induct)
  case (3 c d s)
  show ?case
  proof (cases "c = CR \<and> d = LF")
    case True
    have "no_cr_lf (replace_crlf s)"
      using 3 True by (auto dest: no_cr_cr_lf_tl)
    then show ?thesis using True by (cases "replace_crlf s") (auto simp: CR_neq_LF)
  next
    case False
    have ih: "no_cr_lf (replace_crlf (d # s))"
      using 3 False by (auto dest: no_cr_cr_lf_tl)
    obtain e r where r: "replace_crlf (d # s) = e # r"
      using replace_crlf_not_Nil [of d s] by (cases "replace_crlf (d # s)") auto
    have "\<not> (c = CR \<and> e = LF)"
      using r "3.prems" False by (auto dest!: replace_crlf_hd)
    then show ?thesis using False ih r by auto
  qed
qed simp_all

lemma replace_crlf_after:
  "no_cr_lf p \<Longrightarrow> p = [] \<or> last p \<noteq> CR \<Longrightarrow> replace_crlf (p @ x) = p @ replace_crlf x"
proof (induction p rule: replace_crlf.induct)
  case (3 c d s)
  then show ?case by auto
qed (simp_all add: replace_crlf_Cons)

lemma replace_crlf_again:
  "no_cr_cr_lf (b @ t) \<Longrightarrow> replace_crlf (replace_crlf b @ t) = replace_crlf (b @ t)"
proof (induction b rule: replace_crlf.induct)
  case (3 c d s)
  show ?case
  proof (cases "c = CR \<and> d = LF")
    case True
    have "replace_crlf (replace_crlf s @ t) = replace_crlf (s @ t)"
      using 3 True by (auto dest: no_cr_cr_lf_tl)
    then show ?thesis using True by (simp add: replace_crlf_Cons CR_neq_LF)
  next
    case False
    have ih: "replace_crlf (replace_crlf (d # s) @ t) = replace_crlf (d # s @ t)"
      using 3 False by (auto dest: no_cr_cr_lf_tl)
    obtain e r where r: "replace_crlf (d # s) = e # r"
      using replace_crlf_not_Nil [of d s] by (cases "replace_crlf (d # s)") auto
    have "\<not> (c = CR \<and> e = LF)"
      using r "3.prems" False by (auto dest!: replace_crlf_hd)
    then show ?thesis using False ih r by auto
  qed
qed simp_all


lemma indexOf_blank_at:
  "indexOf_blank b = Some i \<Longrightarrow> b ! i = LF \<and> b ! Suc i = LF"
  by (induction b arbitrary: i rule: indexOf_blank.induct) (auto split: if_splits)

lemma indexOf_blank_take:
  "indexOf_blank b = Some i \<Longrightarrow> indexOf_blank (take (i + 2) b @ z) = Some i"
  by (induction b arbitrary: i rule: indexOf_blank.induct) (auto split: if_splits)

lemma drain_collect_prefix:
  "\<exists>p r k fs. b = p @ r \<and> (p = [] \<or> last p = LF) \<and> indexOf_blank r = None \<and>
     (\<forall>y n acc. drain P collect (p @ y) n acc = drain P collect y (n + k) (acc @ fs))"
proof (induction "length b" arbitrary: b rule: less_induct)
  case less
  show ?case
  proof (cases "indexOf_blank b")
    case None
    have "b = [] @ b \<and> indexOf_blank b = None \<and>
      (\<forall>y n acc. drain P collect ([] @ y) n acc = drain P collect y (n + 0) (acc @ []))"
      using None by simp
    then show ?thesis by blast
  next
    case (Some i)
    define q where "q = take (i + 2) b"
    define b' where "b' = drop (i + 2) b"
    have len: "i + 2 \<le> length b" using Some by (rule indexOf_blank_bound)
    have lq: "length q = i + 2" using len by (simp add: q_def)
    have b: "b = q @ b'" by (simp add: q_def b'_def)
    have "length b' < length b" using len by (simp add: b'_def)
    from less [OF this] obtain p r k fs where
      b': "b' = p @ r" and lastp: "p = [] \<or> last p = LF" and r: "indexOf_blank r = None"
      and step: "\<And>y n acc. drain P collect (p @ y) n acc = drain P collect y (n + k) (acc @ fs)"
      by blast
    have qlast: "last q = LF"
    proof -
      have "q \<noteq> []" using lq by auto
      then have "last q = q ! Suc i" using lq by (simp add: last_conv_nth)
      also have "\<dots> = b ! Suc i" by (simp add: q_def)
      finally show ?thesis using indexOf_blank_at [OF Some] by simp
    qed
    have idx: "indexOf_blank (q @ z) = Some i" for z
      unfolding q_def using Some by (rule indexOf_blank_take)
    have tk: "take i (q @ z) = take i b" for z
      using lq by (simp add: q_def min_def)
    have dr: "drop (i + 2) (q @ z) = z" for z
      using lq by simp
    define f where "f = trim (take i b)"
    show ?thesis
    proof (cases "f = []")
      case True
      have "drain P collect ((q @ p) @ y) n acc = drain P collect y (n + k) (acc @ fs)" for y n acc
        using idx [of "p @ y"] tk [of "p @ y"] dr [of "p @ y"] True step [of y n acc]
        by (subst drain.simps) (simp add: f_def)
      moreover have "b = (q @ p) @ r" using b b' by simp
      moreover have "q @ p = [] \<or> last (q @ p) = LF" using lastp qlast by (cases "p = []") simp_all
      ultimately show ?thesis using r by blast
    next
      case False
      have "drain P collect ((q @ p) @ y) n acc
              = drain P collect y (n + Suc k) (acc @ parseSseFrame P f # fs)" for y n acc
        using idx [of "p @ y"] tk [of "p @ y"] dr [of "p @ y"] False
          step [of y "Suc n" "acc @ [parseSseFrame P f]"]
        by (subst drain.simps) (simp add: f_def collect_def)
      moreover have "b = (q @ p) @ r" using b b' by simp
      moreover have "q @ p = [] \<or> last (q @ p) = LF" using lastp qlast by (cases "p = []") simp_all
      ultimately show ?thesis using r by blast
    qed
  qed
qed

lemma drain_collect_None: "fst (drain P collect b n acc) = None"
proof -
  obtain p r k fs where "b = p @ r" "indexOf_blank r = None"
    "\<And>y n acc. drain P collect (p @ y) n acc = drain P collect y (n + k) (acc @ fs)"
    using drain_collect_prefix [of b P] by blast
  then have "drain P collect b n acc = drain P collect r (n + k) (acc @ fs)" by simp
  also have "\<dots> = (None, r, n + k, acc @ fs)"
    using \<open>indexOf_blank r = None\<close> by (subst drain.simps) simp
  finally show ?thesis by simp
qed

lemma drain_next_chunk:
  assumes "no_cr_cr_lf (T @ t)"
    and "drain P collect (replace_crlf T) 0 [] = (None, r, k, fs)"
  shows "drain P collect (replace_crlf (r @ t)) k fs = drain P collect (replace_crlf (T @ t)) 0 []"
proof -
  obtain p r' k' fs' where B: "replace_crlf T = p @ r'" and lastp: "p = [] \<or> last p = LF"
    and r': "indexOf_blank r' = None"
    and step: "\<And>y n acc. drain P collect (p @ y) n acc = drain P collect y (n + k') (acc @ fs')"
    using drain_collect_prefix [of "replace_crlf T" P] by blast
  have "drain P collect (replace_crlf T) 0 [] = drain P collect r' k' fs'"
    using step [of r' 0 "[]"] B by simp
  also have "\<dots> = (None, r', k', fs')"
    using r' by (subst drain.simps) simp
  finally have eq: "r' = r" "k' = k" "fs' = fs" using assms(2) by simp_all
  have "no_cr_lf (replace_crlf T)"
    using assms(1) by (intro no_cr_lf_replace) (rule no_cr_cr_lf_prefix)
  then have "no_cr_lf p" unfolding B by (rule no_cr_lf_prefix)
  moreover have "p = [] \<or> last p \<noteq> CR" using lastp by (auto simp: CR_neq_LF)
  ultimately have "replace_crlf (p @ (r @ t)) = p @ replace_crlf (r @ t)"
    by (rule replace_crlf_after)
  moreover have "replace_crlf (T @ t) = replace_crlf (replace_crlf T @ t)"
    using assms(1) by (simp add: replace_crlf_again)
  ultimately have "replace_crlf (T @ t) = p @ replace_crlf (r @ t)"
    using B eq by simp
  then show ?thesis using step [of "replace_crlf (r @ t)" 0 "[]"] eq by simp
qed

lemma read_loop_collect:
  assumes "no_cr_cr_lf (T @ snd (decode (decoder r) (concat chunks)))"
    and "drain P collect (replace_crlf T) 0 [] = (None, buffer r, eventCount r, handler_state r)"
    and "read_loop P collect chunks None r = (e, r')"
  shows "drain P collect (replace_crlf (T @ snd (decode (decoder r) (concat chunks)))) 0 []
           = (None, buffer r', eventCount r', handler_state r')
         \<and> e = None"
  using assms
proof (induction chunks arbitrary: T r)
  case Nil
  then show ?case by simp
next
  case (Cons chunk chunks)
  obtain d t where dt: "decode (decoder r) chunk = (d, t)" by (cases "decode (decoder r) chunk")
  obtain d' t' where dt': "decode d (concat chunks) = (d', t')" by (cases "decode d (concat chunks)")
  have all: "snd (decode (decoder r) (concat (chunk # chunks))) = t @ t'"
    using dt dt' by (simp add: decode_append)
  have H: "no_cr_cr_lf ((T @ t) @ t')" using Cons.prems(1) all by simp
  then have Ht: "no_cr_cr_lf (T @ t)" by (rule no_cr_cr_lf_prefix)
  have next_chunk: "drain P collect (replace_crlf (buffer r @ t)) (eventCount r) (handler_state r)
          = drain P collect (replace_crlf (T @ t)) 0 []"
    using Ht Cons.prems(2) by (rule drain_next_chunk)
  obtain b n s where res: "drain P collect (replace_crlf (T @ t)) 0 [] = (None, b, n, s)"
    using drain_collect_None [of P "replace_crlf (T @ t)" 0 "[]"]
    by (cases "drain P collect (replace_crlf (T @ t)) 0 []") auto
  let ?r = "\<lparr>decoder = d, buffer = b, eventCount = n, handler_state = s\<rparr>"
  have loop: "read_loop P collect chunks None ?r = (e, r')"
    using Cons.prems(3) dt next_chunk res by simp
  have "drain P collect (replace_crlf ((T @ t) @ snd (decode (decoder ?r) (concat chunks)))) 0 []
           = (None, buffer r', eventCount r', handler_state r') \<and> e = None"
    using H res loop dt' by (intro Cons.IH) simp_all
  then show ?case using all dt' by simp
qed


text \<open>
  Apart from \<^verbatim>\<open>CR CR LF\<close> the chunking is immaterial. When the decoded text of a byte
  sequence holds no \<^verbatim>\<open>CR CR LF\<close>, every way of cutting the sequence into chunks gives
  the frames that the whole sequence gives as one chunk: the frames cut from the
  normalised text at its blank lines, the part after the last blank line staying in the
  buffer.
\<close>

lemma stream_frames_drain:
  assumes "no_cr_cr_lf (snd (decode new_decoder (concat chunks)))"
  shows "stream_frames P chunks =
           snd (snd (snd (drain P collect
             (replace_crlf (snd (decode new_decoder (concat chunks)))) 0 [])))"
proof -
  have start: "drain P collect (replace_crlf []) 0 []
     = (None, buffer (new_reader []), eventCount (new_reader []),
        handler_state (new_reader ([] :: frame list)))"
    by (subst drain.simps) (simp add: new_reader_def)
  have dec: "decoder (new_reader ([] :: frame list)) = new_decoder"
    by (simp add: new_reader_def)
  obtain e r' where rl: "read_loop P collect chunks None (new_reader []) = (e, r')"
    by (cases "read_loop P collect chunks None (new_reader [])")
  have "drain P collect (replace_crlf
          ([] @ snd (decode (decoder (new_reader ([] :: frame list))) (concat chunks)))) 0 []
           = (None, buffer r', eventCount r', handler_state r') \<and> e = None"
    using assms start rl by (intro read_loop_collect) (simp_all add: dec)
  then show ?thesis using rl by (simp add: stream_frames_def dec)
qed

lemma frames_same_for_every_chunking:
  assumes "no_cr_cr_lf (snd (decode new_decoder (concat chunks)))"
    and "concat chunks' = concat chunks"
  shows "stream_frames P chunks' = stream_frames P chunks"
  using assms stream_frames_drain [of chunks P] stream_frames_drain [of chunks' P] by simp

text \<open>
  For instance \<^verbatim>\<open>data: \<close>, the two bytes of U+00E9 and \<^verbatim>\<open>CR LF CR LF\<close>, cut inside the
  character and inside both line ends.
\<close>

lemma frames_same_for_every_chunking_example:
  "stream_frames P [bytes ''data: '' @ [0xC3], [0xA9, 0x0D], [0x0A, 0x0D], [0x0A]]
     = stream_frames P [bytes ''data: '' @ [0xC3, 0xA9, 0x0D, 0x0A, 0x0D, 0x0A]]"
  using frames_same_for_every_chunking
    [of "[bytes ''data: '' @ [0xC3, 0xA9, 0x0D, 0x0A, 0x0D, 0x0A]]"
        "[bytes ''data: '' @ [0xC3], [0xA9, 0x0D], [0x0A, 0x0D], [0x0A]]" P]
  by (simp add: bytes_def new_decoder_def utf8_byte_def utf8_lead_def reset_decoder_def
      emit_def utf16_def Let_def CR_def LF_def)

section \<open>Properties of the session\<close>

lemma uiState_setError [simp]: "uiState (setError m st) = uiState st"
  by (simp add: setError_def)

lemma uiState_setUiState [simp]: "uiState (setUiState s st) = s"
  by (simp add: setUiState_def Let_def)

lemma setUiState_fields [simp]:
  "threadId (setUiState u st) = threadId st"
  "stored_thread_id (setUiState u st) = stored_thread_id st"
  "currentController (setUiState u st) = currentController st"
  "requests (setUiState u st) = requests st"
  "errorBanner (setUiState u st) = errorBanner st"
  "approvalCard (setUiState u st) = approvalCard st"
  "question (setUiState u st) = question st"
  "preview (setUiState u st) = preview st"
  by (simp_all add: setUiState_def Let_def)

lemma uiState_on_failure [simp]: "uiState (on_failure e st) = St_error"
  by (simp add: on_failure_def)

lemma uiState_renderPreview: "renderPreview ap st = (r, st') \<Longrightarrow> uiState st' = uiState st"
  by (auto simp: renderPreview_def Let_def split: sum.splits)

lemma uiState_show_approval:
  "show_approval payload st = (r, st') \<Longrightarrow> uiState st' = St_waiting_approval"
  by (auto simp: show_approval_def Let_def split: sum.splits dest: uiState_renderPreview)

lemma uiState_showApproval:
  "showApprovalIfNeeded payload st = (r, st') \<Longrightarrow> truthy payload \<Longrightarrow>
   uiState st' = St_waiting_approval"
  by (auto simp: showApprovalIfNeeded_def split: if_splits dest: uiState_show_approval)

lemma finish_run_None:
  assumes "finish_run no_report fetched st = (None, st')"
  shows "uiState st' = St_waiting_approval \<or> uiState st' = St_done"
  using assms
  by (auto simp: finish_run_def Let_def split: sum.splits if_splits dest: uiState_showApproval)

lemma run_on_thread_None:
  assumes "run_on_thread JSON_parse busy body no_report env tid st = (None, st')"
  shows "uiState st' = St_waiting_approval \<or> uiState st' = St_done"
  using assms
  by (auto simp: run_on_thread_def split: prod.splits sum.splits option.splits
      dest: finish_run_None)

lemma start_None:
  assumes "start JSON_parse theme env st = (None, st')"
  shows "uiState st' = St_waiting_approval \<or> uiState st' = St_done"
  using assms
  by (auto simp: start_def split: prod.splits sum.splits dest: run_on_thread_None)

lemma resume_None:
  assumes "resume JSON_parse decision env st = (None, st')"
  shows "uiState st' = St_waiting_approval \<or> uiState st' = St_done"
  using assms
  by (auto simp: resume_def split: prod.splits sum.splits dest: run_on_thread_None)

lemma runWithUi_outcome:
  assumes "\<And>s s'. fn s = (None, s') \<Longrightarrow> uiState s' = St_waiting_approval \<or> uiState s' = St_done"
  shows "uiState (runWithUi fn st) \<in> {St_waiting_approval, St_done, St_error}"
proof (cases "fn (setError [] st)")
  case (Pair r s')
  then show ?thesis
    using assms [of "setError [] st" s'] by (cases r) (auto simp: runWithUi_def)
qed

lemma uiState_handleSseEvent:
  "uiState (snd (handleSseEvent ev st)) = uiState st
   \<or> uiState (snd (handleSseEvent ev st)) = St_waiting_approval"
proof (cases "handleSseEvent ev st")
  case (Pair r st')
  then show ?thesis
    by (auto simp: handleSseEvent_def Let_def split: sum.splits if_splits
        dest: uiState_showApproval)
qed

text \<open>
  C4. A run is \<^verbatim>\<open>runWithUi(start)\<close>, from the start button, or \<^verbatim>\<open>handleDecision\<close>, from
  one of the three decision buttons. Whatever the state it begins in and whatever the
  server answers, the state when the run completes is \<open>waiting_approval\<close>, \<open>done\<close> or
  \<open>error\<close>; it is never \<open>idle\<close>, \<open>starting\<close> or \<open>resuming\<close>. \<^verbatim>\<open>clearAll\<close>, the reset,
  enters \<open>idle\<close>. Of the other handlers, \<^verbatim>\<open>cancelInFlight\<close> leaves the state as it is
  and \<^verbatim>\<open>handleSseEvent\<close> leaves it as it is or enters \<open>waiting_approval\<close>. (\<^verbatim>\<open>initAsync\<close>
  sets \<open>idle\<close> once, when the page is loaded and the state is \<open>idle\<close> already.)
\<close>

theorem run_ends_waiting_done_or_error:
  "uiState (runWithUi (start JSON_parse theme env) st) \<in> {St_waiting_approval, St_done, St_error}
   \<and> uiState (handleDecision JSON_parse decision env st)
        \<in> {St_waiting_approval, St_done, St_error}
   \<and> uiState (clearAll st) = St_idle
   \<and> uiState (cancelInFlight st) = uiState st
   \<and> uiState (snd (handleSseEvent ev st)) \<in> {uiState st, St_waiting_approval}"
proof (intro conjI)
  show "uiState (runWithUi (start JSON_parse theme env) st) \<in> {St_waiting_approval, St_done, St_error}"
    by (rule runWithUi_outcome) (rule start_None)
  show "uiState (handleDecision JSON_parse decision env st) \<in> {St_waiting_approval, St_done, St_error}"
    unfolding handleDecision_def by (rule runWithUi_outcome) (rule resume_None)
  show "uiState (clearAll st) = St_idle"
    by (simp add: clearAll_def)
  show "uiState (cancelInFlight st) = uiState st"
    by (simp add: cancelInFlight_def split: option.splits)
  show "uiState (snd (handleSseEvent ev st)) \<in> {uiState st, St_waiting_approval}"
    using uiState_handleSseEvent [of ev st] by auto
qed

text \<open>A start while the server cannot be reached ends in \<open>error\<close>.\<close>

theorem run_ends_waiting_done_or_error_witness:
  "uiState (runWithUi (start (\<lambda>s. Inl (Rejected [])) (str ''T'')
       \<lparr>thread_answer = Inl (Rejected (str ''offline'')),
        stream_answer = Inl (Rejected (str ''offline'')),
        state_answer = Inl (Rejected (str ''offline''))\<rparr>) (page_loaded None))
     = St_error"
proof -
  let ?env = "\<lparr>thread_answer = Inl (Rejected (str ''offline'')),
        stream_answer = Inl (Rejected (str ''offline'')),
        state_answer = Inl (Rejected (str ''offline''))\<rparr>"
  have "start (\<lambda>s. Inl (Rejected [])) (str ''T'') ?env (setError [] (page_loaded None))
          = (Some (Rejected (str ''offline'')),
             createThread_request (resetViewForRun (setError [] (page_loaded None))))"
    by (simp add: start_def ensureThreadIdFromServer_def adopt_created_thread_def createThread_def)
  then have "uiState (runWithUi (start (\<lambda>s. Inl (Rejected [])) (str ''T'') ?env) (page_loaded None))
      \<noteq> St_waiting_approval"
      "uiState (runWithUi (start (\<lambda>s. Inl (Rejected [])) (str ''T'') ?env) (page_loaded None))
      \<noteq> St_done"
    by (simp_all add: runWithUi_def)
  with run_ends_waiting_done_or_error
         [of "\<lambda>s. Inl (Rejected [])" "str ''T''" ?env "page_loaded None"]
  show ?thesis by blast
qed



lemma thread_part_simps [simp]:
  "thread_part (setUiState u st) = thread_part st"
  "thread_part (setError m st) = thread_part st"
  "thread_part (release_controller c st) = thread_part st"
  "thread_part (st\<lparr>approvalCard := a\<rparr>) = thread_part st"
  "thread_part (st\<lparr>question := q\<rparr>) = thread_part st"
  "thread_part (st\<lparr>preview := p\<rparr>) = thread_part st"
  "thread_part (st\<lparr>reportCard := a\<rparr>) = thread_part st"
  "thread_part (st\<lparr>report := r\<rparr>) = thread_part st"
  by (simp_all add: thread_part_def setUiState_def setError_def release_controller_def Let_def)









lemma threadId_on_failure [simp]:
  "threadId (on_failure e st) = threadId st"
  "stored_thread_id (on_failure e st) = stored_thread_id st"
  "requests (on_failure e st) = requests st"
  by (simp_all add: on_failure_def setError_def setUiState_def Let_def)

lemma fields_reset [simp]:
  "threadId (resetViewForRun (setError [] st)) = threadId st"
  "stored_thread_id (resetViewForRun (setError [] st)) = stored_thread_id st"
  "requests (resetViewForRun (setError [] st)) = requests st"
  by (simp_all add: resetViewForRun_def setError_def)



lemma dropWhile_all_iff: "(\<forall>x\<in>set (dropWhile P xs). P x) \<longleftrightarrow> (\<forall>x\<in>set xs. P x)"
proof
  assume a: "\<forall>x\<in>set (dropWhile P xs). P x"
  have "dropWhile P xs = []"
  proof (rule ccontr)
    assume n: "dropWhile P xs \<noteq> []"
    then have "\<not> P (hd (dropWhile P xs))" by (rule hd_dropWhile)
    moreover have "hd (dropWhile P xs) \<in> set (dropWhile P xs)" using n by simp
    ultimately show False using a by blast
  qed
  then show "\<forall>x\<in>set xs. P x" by simp
next
  assume "\<forall>x\<in>set xs. P x"
  then show "\<forall>x\<in>set (dropWhile P xs). P x" by (meson set_dropWhileD)
qed

lemma trim_empty_iff: "trim s = [] \<longleftrightarrow> (\<forall>c\<in>set s. is_js_space c)"
  by (simp add: trim_def dropWhile_all_iff)

lemma final_report_cases:
  "extractFinalReportFromThread t =
     (case get_prop (get_prop t (str ''values'')) (str ''final_report'') of
        Val (JStr s) \<Rightarrow> if (\<exists>c\<in>set s. \<not> is_js_space c) then s else []
      | _ \<Rightarrow> [])"
proof (cases "truthy (get_prop t (str ''values''))")
  case True
  then show ?thesis
    by (auto simp: extractFinalReportFromThread_def Let_def trim_empty_iff
        split: jsval.splits json.splits)
next
  case False
  have "get_prop (get_prop t (str ''values'')) (str ''final_report'') = Undefined"
    using False by (cases "get_prop t (str ''values'')" rule: truthy.cases) simp_all
  with False show ?thesis
    by (simp add: extractFinalReportFromThread_def Let_def)
qed

text \<open>
  C10. \<open>extractFinalReportFromThread\<close> returns \<open>values.final_report\<close> when that is a
  string with a character that \<^verbatim>\<open>trim\<close> does not remove, and the empty string in every
  other case: no \<open>values\<close>, no \<open>final_report\<close>, not a string, empty, or white space only.
  So when the thread fetched at the end of a run has no interrupt and a report of white
  space only, the run ends \<open>done\<close> with the text that stands for a missing report, not
  with the report.
\<close>

theorem blank_report_is_no_report:
  "extractFinalReportFromThread t =
     (case get_prop (get_prop t (str ''values'')) (str ''final_report'') of
        Val (JStr s) \<Rightarrow> if (\<exists>c\<in>set s. \<not> is_js_space c) then s else []
      | _ \<Rightarrow> [])
   \<and> (getThread fetched = Inr t \<and> extractInterruptPayload t = Inr payload \<and> \<not> truthy payload
        \<and> extractCurrentStepFromThread t = Inr currentStep
        \<and> get_prop (get_prop t (str ''values'')) (str ''final_report'') = Val (JStr s)
        \<and> (\<forall>c\<in>set s. is_js_space c)
      \<longrightarrow> finish_run no_report fetched st
            = (None, (setUiState St_done st)\<lparr>reportCard := True, report := no_report\<rparr>))"
proof (intro conjI impI)
  show "extractFinalReportFromThread t =
     (case get_prop (get_prop t (str ''values'')) (str ''final_report'') of
        Val (JStr s) \<Rightarrow> if (\<exists>c\<in>set s. \<not> is_js_space c) then s else []
      | _ \<Rightarrow> [])"
    by (rule final_report_cases)
next
  assume a: "getThread fetched = Inr t \<and> extractInterruptPayload t = Inr payload \<and> \<not> truthy payload
        \<and> extractCurrentStepFromThread t = Inr currentStep
        \<and> get_prop (get_prop t (str ''values'')) (str ''final_report'') = Val (JStr s)
        \<and> (\<forall>c\<in>set s. is_js_space c)"
  then have "extractFinalReportFromThread t = []"
    by (simp add: final_report_cases)
  with a show "finish_run no_report fetched st
            = (None, (setUiState St_done st)\<lparr>reportCard := True, report := no_report\<rparr>)"
    by (simp add: finish_run_def)
qed

text \<open>The thread \<^verbatim>\<open>{"values": {"final_report": " \n"}}\<close> at the end of a start.\<close>

theorem blank_report_is_no_report_witness:
  "finish_run no_report_after_start
     (answer_json (JObj [(str ''values'', JObj [(str ''final_report'', JStr [0x20, 0x0A])])]))
     (page_loaded None)
   = (None, (setUiState St_done (page_loaded None))
              \<lparr>reportCard := True, report := no_report_after_start\<rparr>)"
proof -
  let ?t = "JObj [(str ''values'', JObj [(str ''final_report'', JStr [0x20, 0x0A])])]"
  have g: "getThread (answer_json ?t) = Inr (Val ?t)"
    by (simp add: getThread_def answer_json_def)
  have p: "extractInterruptPayload (Val ?t) = Inr null"
    by (simp add: extractInterruptPayload_def candidates_def locations_def js_or_def str_def)
  have c: "extractCurrentStepFromThread (Val ?t) = Inr []"
    by (simp add: extractCurrentStepFromThread_def js_or_def str_def)
  have f: "get_prop (get_prop (Val ?t) (str ''values'')) (str ''final_report'') = Val (JStr [0x20, 0x0A])"
    by (simp add: str_def)
  have w: "\<forall>c\<in>set [0x20, 0x0A]. is_js_space c"
    by (simp add: is_js_space_def)
  have n: "\<not> truthy null" by simp
  from blank_report_is_no_report
         [where fetched = "answer_json ?t" and t = "Val ?t" and payload = null
            and currentStep = "[]" and s = "[0x20, 0x0A]" and no_report = no_report_after_start
            and st = "page_loaded None"] g p c f w n
  show ?thesis by blast
qed

lemma show_approval_None:
  "show_approval payload st = (None, st') \<longleftrightarrow>
     (\<exists>q items.
        js_String (js_or (get_prop payload (str ''question'')) (Val (JStr default_question))) = Inr q
        \<and> preview_items 0 (preview_list (js_or (get_prop payload (str ''analysis_preview'')) (Val (JArr []))))
            = Inr items
        \<and> st' = (setUiState St_waiting_approval st)\<lparr>approvalCard := True, question := q, preview := items\<rparr>)"
  by (auto simp: show_approval_def renderPreview_def Let_def split: sum.splits)

lemma initAsync_adopts:
  assumes "restoreThreadId st = Some saved" "getThread fetched = Inr t"
    "extractInterruptPayload t = Inr payload" "truthy payload"
    "extractCurrentStepFromThread t = Inr step"
    "show_approval payload before = (None, shown)"
  shows "initAsync fetched st =
     (setUiState St_waiting_approval
        (setUiState St_idle st\<lparr>requests := requests st @ [GET_thread saved],
            threadId := Val (JStr saved)\<rparr>))
       \<lparr>approvalCard := True, question := question shown, preview := preview shown\<rparr>"
proof -
  let ?s = "setUiState St_idle st\<lparr>requests := requests st @ [GET_thread saved],
            threadId := Val (JStr saved)\<rparr>"
  from assms(6) obtain q items where
    q: "js_String (js_or (get_prop payload (str ''question'')) (Val (JStr default_question))) = Inr q"
    and i: "preview_items 0 (preview_list (js_or (get_prop payload (str ''analysis_preview'')) (Val (JArr []))))
            = Inr items"
    and s: "shown = (setUiState St_waiting_approval before)\<lparr>approvalCard := True, question := q, preview := items\<rparr>"
    unfolding show_approval_None by blast
  have "show_approval payload ?s
        = (None, (setUiState St_waiting_approval ?s)\<lparr>approvalCard := True, question := q, preview := items\<rparr>)"
    unfolding show_approval_None using q i by blast
  then show ?thesis
    using assms(1-5) s by (simp add: initAsync_def Let_def restoreThreadId_def setUiState_def)
qed

lemma show_approval_Some:
  "show_approval payload st = (Some e, st') \<longleftrightarrow>
     (js_String (js_or (get_prop payload (str ''question'')) (Val (JStr default_question))) = Inl e
        \<and> st' = (setUiState St_waiting_approval st)\<lparr>approvalCard := True\<rparr>)
     \<or> (\<exists>q.
        js_String (js_or (get_prop payload (str ''question'')) (Val (JStr default_question))) = Inr q
        \<and> preview_items 0 (preview_list (js_or (get_prop payload (str ''analysis_preview'')) (Val (JArr []))))
            = Inl e
        \<and> st' = (setUiState St_waiting_approval st)\<lparr>approvalCard := True, question := q, preview := []\<rparr>)"
  by (auto simp: show_approval_def renderPreview_def Let_def split: sum.splits)

lemma initAsync_display_throws:
  assumes "restoreThreadId st = Some saved" "getThread fetched = Inr t"
    "extractInterruptPayload t = Inr payload" "truthy payload"
    "extractCurrentStepFromThread t = Inr step"
    "show_approval payload before = (Some e, shown)"
  shows "threadId (initAsync fetched st) = Val (JStr saved)
     \<and> stored_thread_id (initAsync fetched st) = None
     \<and> uiState (initAsync fetched st) = St_waiting_approval
     \<and> approvalCard (initAsync fetched st)
     \<and> (question (initAsync fetched st) = question st \<and> preview (initAsync fetched st) = preview st
          \<and> question shown = question before \<and> preview shown = preview before
        \<or> question (initAsync fetched st) = question shown \<and> preview (initAsync fetched st) = []
          \<and> preview shown = [])"
proof -
  let ?s = "setUiState St_idle st\<lparr>requests := requests st @ [GET_thread saved],
            threadId := Val (JStr saved)\<rparr>"
  let ?Q = "js_String (js_or (get_prop payload (str ''question'')) (Val (JStr default_question)))"
  let ?I = "preview_items 0 (preview_list (js_or (get_prop payload (str ''analysis_preview'')) (Val (JArr []))))"
  from assms(6) consider
      (question) "?Q = Inl e" "shown = (setUiState St_waiting_approval before)\<lparr>approvalCard := True\<rparr>"
    | (items) q where "?Q = Inr q" "?I = Inl e"
        "shown = (setUiState St_waiting_approval before)\<lparr>approvalCard := True, question := q, preview := []\<rparr>"
    unfolding show_approval_Some by blast
  then show ?thesis
  proof cases
    case question
    have "show_approval payload ?s = (Some e, (setUiState St_waiting_approval ?s)\<lparr>approvalCard := True\<rparr>)"
      unfolding show_approval_Some using question(1) by blast
    then have "initAsync fetched st
        = clearThreadId ((setUiState St_waiting_approval ?s)\<lparr>approvalCard := True\<rparr>)"
      using assms(1-5) by (simp add: initAsync_def Let_def restoreThreadId_def setUiState_def)
    then show ?thesis
      using question(2) by (simp add: clearThreadId_def setUiState_def Let_def)
  next
    case items
    have "show_approval payload ?s
        = (Some e, (setUiState St_waiting_approval ?s)\<lparr>approvalCard := True, question := q, preview := []\<rparr>)"
      unfolding show_approval_Some using items(1,2) by blast
    then have "initAsync fetched st
        = clearThreadId ((setUiState St_waiting_approval ?s)\<lparr>approvalCard := True, question := q, preview := []\<rparr>)"
      using assms(1-5) by (simp add: initAsync_def Let_def restoreThreadId_def setUiState_def)
    then show ?thesis
      using items(3) by (simp add: clearThreadId_def setUiState_def Let_def)
  qed
qed

lemma initAsync_discards:
  assumes "restoreThreadId st = Some saved"
    "\<not> (\<exists>t payload step. getThread fetched = Inr t \<and> extractInterruptPayload t = Inr payload
          \<and> truthy payload \<and> extractCurrentStepFromThread t = Inr step)"
  shows "initAsync fetched st =
     clearThreadId (setUiState St_idle st\<lparr>requests := requests st @ [GET_thread saved]\<rparr>)"
  using assms
  by (auto simp: initAsync_def Let_def restoreThreadId_def setUiState_def split: sum.splits)

lemma restoreThreadId_setUiState [simp]:
  "restoreThreadId (setUiState u st) = restoreThreadId st"
  by (simp add: restoreThreadId_def setUiState_def Let_def)

lemma initAsync_quiet:
  "restoreThreadId st = Some saved \<Longrightarrow>
   requests (initAsync fetched st) = requests st @ [GET_thread saved]
   \<and> errorBanner (initAsync fetched st) = errorBanner st
   \<and> uiState (initAsync fetched st) \<noteq> St_error"
proof -
  assume r: "restoreThreadId st = Some saved"
  let ?s2 = "setUiState St_idle st\<lparr>requests := requests st @ [GET_thread saved]\<rparr>"
  have base: "requests ?s2 = requests st @ [GET_thread saved]" "errorBanner ?s2 = errorBanner st"
    "uiState ?s2 = St_idle"
    by (simp_all add: setUiState_def Let_def)
  have sh: "requests s' = requests s \<and> errorBanner s' = errorBanner s \<and> uiState s' = St_waiting_approval"
    if "show_approval p s = (e, s')" for p s e s'
    using that
    by (auto simp: show_approval_def renderPreview_def Let_def setUiState_def split: sum.splits)
  show ?thesis
  proof (cases "getThread fetched")
    case (Inl e)
    with r base show ?thesis by (simp add: initAsync_def Let_def clearThreadId_def)
  next
    case (Inr t)
    show ?thesis
    proof (cases "extractInterruptPayload t")
      case Inl2: (Inl e)
      with r Inr base show ?thesis by (simp add: initAsync_def Let_def clearThreadId_def)
    next
      case Inr2: (Inr payload)
      show ?thesis
      proof (cases "extractCurrentStepFromThread t")
        case Inl3: (Inl e)
        with r Inr Inr2 base show ?thesis by (simp add: initAsync_def Let_def clearThreadId_def)
      next
        case Inr3: (Inr step)
        show ?thesis
        proof (cases "truthy payload")
          case False
          with r Inr Inr2 Inr3 base show ?thesis
            by (simp add: initAsync_def Let_def clearThreadId_def)
        next
          case True
          obtain e s3 where sa: "show_approval payload (?s2\<lparr>threadId := Val (JStr saved)\<rparr>) = (e, s3)"
            by (cases "show_approval payload (?s2\<lparr>threadId := Val (JStr saved)\<rparr>)")
          have i: "initAsync fetched st = (case e of Some x \<Rightarrow> clearThreadId s3 | None \<Rightarrow> s3)"
            using r Inr Inr2 Inr3 True sa by (simp add: initAsync_def Let_def split: option.splits)
          from sh [OF sa] base show ?thesis
            unfolding i by (cases e) (simp_all add: clearThreadId_def)
        qed
      qed
    qed
  qed
qed

text \<open>
  C9, as the code has it. Let the page start with a stored thread id \<open>saved\<close>. Then
  \<open>initAsync\<close> sends one request, the read of that thread; it never changes the error
  banner and never enters \<open>error\<close>. What it does besides has three cases, and every
  answer of the server falls under one of them.

  The thread is fetched, \<open>extractInterruptPayload\<close> and \<open>extractCurrentStepFromThread\<close>
  both return, the former with a truthy payload: the id is adopted, the state is
  \<open>waiting_approval\<close> and the approval card is shown. The payload is displayed as
  \<open>showApprovalIfNeeded\<close> displayed it during a run. Where that display completed, question
  and preview are the ones shown during the run and the id stays in the store. Where that
  display threw, on a question or on the title of a preview item that has no string, the
  display throws here as well and stops at the same point, with nothing written or with
  the question written and the preview empty, and the \<^verbatim>\<open>catch\<close> removes the id from the
  store while it stays adopted.

  In every other case, that is if the fetch fails, or there is no payload, or reading
  the thread throws, the stored id is removed, no id is adopted and the state stays
  \<open>idle\<close>.
\<close>

theorem rehydrate_pending_or_discard:
  "restoreThreadId st = Some saved \<longrightarrow>
     requests (initAsync fetched st) = requests st @ [GET_thread saved]
     \<and> errorBanner (initAsync fetched st) = errorBanner st
     \<and> uiState (initAsync fetched st) \<noteq> St_error
     \<and> (getThread fetched = Inr t \<and> extractInterruptPayload t = Inr payload \<and> truthy payload
          \<and> extractCurrentStepFromThread t = Inr step
          \<and> uiState before \<noteq> St_waiting_approval
          \<and> showApprovalIfNeeded payload before = (None, shown) \<longrightarrow>
         threadId (initAsync fetched st) = Val (JStr saved)
         \<and> stored_thread_id (initAsync fetched st) = stored_thread_id st
         \<and> uiState (initAsync fetched st) = St_waiting_approval
         \<and> approvalCard (initAsync fetched st)
         \<and> question (initAsync fetched st) = question shown
         \<and> preview (initAsync fetched st) = preview shown)
     \<and> (getThread fetched = Inr t \<and> extractInterruptPayload t = Inr payload \<and> truthy payload
          \<and> extractCurrentStepFromThread t = Inr step
          \<and> uiState before \<noteq> St_waiting_approval
          \<and> showApprovalIfNeeded payload before = (Some e, shown) \<longrightarrow>
         threadId (initAsync fetched st) = Val (JStr saved)
         \<and> stored_thread_id (initAsync fetched st) = None
         \<and> uiState (initAsync fetched st) = St_waiting_approval
         \<and> approvalCard (initAsync fetched st)
         \<and> (question (initAsync fetched st) = question st
               \<and> preview (initAsync fetched st) = preview st
               \<and> question shown = question before \<and> preview shown = preview before
             \<or> question (initAsync fetched st) = question shown
               \<and> preview (initAsync fetched st) = [] \<and> preview shown = []))
     \<and> (\<not> (\<exists>t payload step. getThread fetched = Inr t \<and> extractInterruptPayload t = Inr payload
              \<and> truthy payload \<and> extractCurrentStepFromThread t = Inr step) \<longrightarrow>
         stored_thread_id (initAsync fetched st) = None
         \<and> threadId (initAsync fetched st) = threadId st
         \<and> uiState (initAsync fetched st) = St_idle
         \<and> approvalCard (initAsync fetched st) = approvalCard st)"
proof (intro impI conjI)
  assume r: "restoreThreadId st = Some saved"
  from initAsync_quiet [OF r]
  show "requests (initAsync fetched st) = requests st @ [GET_thread saved]"
    "errorBanner (initAsync fetched st) = errorBanner st"
    "uiState (initAsync fetched st) \<noteq> St_error"
    by blast+
  {
    assume a: "getThread fetched = Inr t \<and> extractInterruptPayload t = Inr payload \<and> truthy payload
          \<and> extractCurrentStepFromThread t = Inr step
          \<and> uiState before \<noteq> St_waiting_approval
          \<and> showApprovalIfNeeded payload before = (None, shown)"
    then have sa: "show_approval payload before = (None, shown)"
      by (auto simp: showApprovalIfNeeded_def)
    note i = initAsync_adopts [OF r _ _ _ _ sa, of fetched t step]
    from a i
    show "threadId (initAsync fetched st) = Val (JStr saved)"
      "stored_thread_id (initAsync fetched st) = stored_thread_id st"
      "uiState (initAsync fetched st) = St_waiting_approval"
      "approvalCard (initAsync fetched st)"
      "question (initAsync fetched st) = question shown"
      "preview (initAsync fetched st) = preview shown"
      by (simp_all add: setUiState_def Let_def)
  }
  {
    assume a: "getThread fetched = Inr t \<and> extractInterruptPayload t = Inr payload \<and> truthy payload
          \<and> extractCurrentStepFromThread t = Inr step
          \<and> uiState before \<noteq> St_waiting_approval
          \<and> showApprovalIfNeeded payload before = (Some e, shown)"
    then have sa: "show_approval payload before = (Some e, shown)"
      by (auto simp: showApprovalIfNeeded_def)
    from a have "getThread fetched = Inr t" "extractInterruptPayload t = Inr payload"
      "truthy payload" "extractCurrentStepFromThread t = Inr step"
      by simp_all
    note i = initAsync_display_throws [OF r this sa]
    from i
    show "threadId (initAsync fetched st) = Val (JStr saved)"
      "stored_thread_id (initAsync fetched st) = None"
      "uiState (initAsync fetched st) = St_waiting_approval"
      "approvalCard (initAsync fetched st)"
      "question (initAsync fetched st) = question st
               \<and> preview (initAsync fetched st) = preview st
               \<and> question shown = question before \<and> preview shown = preview before
             \<or> question (initAsync fetched st) = question shown
               \<and> preview (initAsync fetched st) = [] \<and> preview shown = []"
      by blast+
  }
  {
    assume n: "\<not> (\<exists>t payload step. getThread fetched = Inr t \<and> extractInterruptPayload t = Inr payload
              \<and> truthy payload \<and> extractCurrentStepFromThread t = Inr step)"
    from initAsync_discards [OF r n]
    show "stored_thread_id (initAsync fetched st) = None"
      "threadId (initAsync fetched st) = threadId st"
      "uiState (initAsync fetched st) = St_idle"
      "approvalCard (initAsync fetched st) = approvalCard st"
      by (simp_all add: setUiState_def Let_def clearThreadId_def)
  }
qed

text \<open>
  With \<open>t1\<close> stored: the thread \<^verbatim>\<open>{"__interrupt__": [{"value": {"question": "ok?"}}]}\<close>
  is adopted and its question shown; the thread
  \<^verbatim>\<open>{"__interrupt__": {"question": {"toString": 1}}}\<close>, whose question has no string, is
  adopted in state \<open>waiting_approval\<close> and its id removed from the store; a rejected fetch
  removes the stored id and leaves the state \<open>idle\<close>.
\<close>

theorem rehydrate_pending_or_discard_witness:
  "uiState (initAsync
      (answer_json (JObj [(str ''__interrupt__'', JArr [JObj [(str ''value'', JObj [(str ''question'', JStr (str ''ok?''))])]])]))
      (page_loaded (Some (str ''t1''))))
     = St_waiting_approval
   \<and> threadId (initAsync
      (answer_json (JObj [(str ''__interrupt__'', JArr [JObj [(str ''value'', JObj [(str ''question'', JStr (str ''ok?''))])]])]))
      (page_loaded (Some (str ''t1''))))
     = Val (JStr (str ''t1''))
   \<and> question (initAsync
      (answer_json (JObj [(str ''__interrupt__'', JArr [JObj [(str ''value'', JObj [(str ''question'', JStr (str ''ok?''))])]])]))
      (page_loaded (Some (str ''t1''))))
     = str ''ok?''
   \<and> uiState (initAsync
      (answer_json (JObj [(str ''__interrupt__'', JObj [(str ''question'', JObj [(str ''toString'', JNum (Nonzero (str ''1'')))])])]))
      (page_loaded (Some (str ''t1''))))
     = St_waiting_approval
   \<and> threadId (initAsync
      (answer_json (JObj [(str ''__interrupt__'', JObj [(str ''question'', JObj [(str ''toString'', JNum (Nonzero (str ''1'')))])])]))
      (page_loaded (Some (str ''t1''))))
     = Val (JStr (str ''t1''))
   \<and> stored_thread_id (initAsync
      (answer_json (JObj [(str ''__interrupt__'', JObj [(str ''question'', JObj [(str ''toString'', JNum (Nonzero (str ''1'')))])])]))
      (page_loaded (Some (str ''t1''))))
     = None
   \<and> stored_thread_id (initAsync (Inl (Rejected (str ''offline''))) (page_loaded (Some (str ''t1'')))) = None
   \<and> uiState (initAsync (Inl (Rejected (str ''offline''))) (page_loaded (Some (str ''t1'')))) = St_idle"
proof -
  let ?p = "JObj [(str ''question'', JStr (str ''ok?''))]"
  let ?t = "JObj [(str ''__interrupt__'', JArr [JObj [(str ''value'', ?p)]])]"
  let ?p2 = "JObj [(str ''question'', JObj [(str ''toString'', JNum (Nonzero (str ''1'')))])]"
  let ?t2 = "JObj [(str ''__interrupt__'', ?p2)]"
  let ?st = "page_loaded (Some (str ''t1''))"
  let ?before = "page_loaded None"
  let ?shown = "(setUiState St_waiting_approval ?before)
                  \<lparr>approvalCard := True, question := str ''ok?'', preview := []\<rparr>"
  let ?shown2 = "(setUiState St_waiting_approval ?before)\<lparr>approvalCard := True\<rparr>"
  have r: "restoreThreadId ?st = Some (str ''t1'')"
    by (simp add: restoreThreadId_def page_loaded_def str_def)
  have g: "getThread (answer_json ?t) = Inr (Val ?t)"
    by (simp add: getThread_def answer_json_def)
  have p: "extractInterruptPayload (Val ?t) = Inr (Val ?p)"
    by (simp add: extractInterruptPayload_def candidates_def locations_def accept_candidate_def
        js_coalesce_def looks_like_interrupt_def str_def)
  have c: "extractCurrentStepFromThread (Val ?t) = Inr []"
    by (simp add: extractCurrentStepFromThread_def str_def)
  have t: "truthy (Val ?p)" by simp
  have b: "uiState ?before \<noteq> St_waiting_approval"
    by (simp add: page_loaded_def)
  have q: "js_String (js_or (get_prop (Val ?p) (str ''question'')) (Val (JStr default_question)))
             = Inr (str ''ok?'')"
    by (simp add: js_or_def str_def)
  have i: "preview_items 0 (preview_list (js_or (get_prop (Val ?p) (str ''analysis_preview'')) (Val (JArr []))))
             = Inr []"
    by (simp add: js_or_def str_def)
  have s: "showApprovalIfNeeded (Val ?p) ?before = (None, ?shown)"
    using b q i by (simp add: showApprovalIfNeeded_def show_approval_def renderPreview_def)
  have qs: "question ?shown = str ''ok?''" by simp
  have g2: "getThread (answer_json ?t2) = Inr (Val ?t2)"
    by (simp add: getThread_def answer_json_def)
  have p2: "extractInterruptPayload (Val ?t2) = Inr (Val ?p2)"
    by (simp add: extractInterruptPayload_def candidates_def locations_def accept_candidate_def
        js_coalesce_def looks_like_interrupt_def str_def)
  have c2: "extractCurrentStepFromThread (Val ?t2) = Inr []"
    by (simp add: extractCurrentStepFromThread_def str_def)
  have t2: "truthy (Val ?p2)" by simp
  have q2: "js_String (js_or (get_prop (Val ?p2) (str ''question'')) (Val (JStr default_question)))
             = Inl TypeError"
    by (simp add: js_or_def str_def)
  have s2: "showApprovalIfNeeded (Val ?p2) ?before = (Some TypeError, ?shown2)"
    using b q2 by (simp add: showApprovalIfNeeded_def show_approval_def)
  have n: "\<not> (\<exists>t payload step. getThread (Inl (Rejected (str ''offline''))) = Inr t
              \<and> extractInterruptPayload t = Inr payload
              \<and> truthy payload \<and> extractCurrentStepFromThread t = Inr step)"
    by (simp add: getThread_def)
  from rehydrate_pending_or_discard
         [where st = ?st and saved = "str ''t1''" and fetched = "answer_json ?t"
            and t = "Val ?t" and payload = "Val ?p" and step = "[]"
            and before = ?before and shown = ?shown] r g p c t b s
  have "uiState (initAsync (answer_json ?t) ?st) = St_waiting_approval
          \<and> threadId (initAsync (answer_json ?t) ?st) = Val (JStr (str ''t1''))
          \<and> question (initAsync (answer_json ?t) ?st) = question ?shown"
    by blast
  with qs have 1: "uiState (initAsync (answer_json ?t) ?st) = St_waiting_approval
          \<and> threadId (initAsync (answer_json ?t) ?st) = Val (JStr (str ''t1''))
          \<and> question (initAsync (answer_json ?t) ?st) = str ''ok?''"
    by simp
  from rehydrate_pending_or_discard
         [where st = ?st and saved = "str ''t1''" and fetched = "answer_json ?t2"
            and t = "Val ?t2" and payload = "Val ?p2" and step = "[]"
            and before = ?before and shown = ?shown2 and e = TypeError] r g2 p2 c2 t2 b s2
  have 3: "uiState (initAsync (answer_json ?t2) ?st) = St_waiting_approval
          \<and> threadId (initAsync (answer_json ?t2) ?st) = Val (JStr (str ''t1''))
          \<and> stored_thread_id (initAsync (answer_json ?t2) ?st) = None"
    by blast
  from rehydrate_pending_or_discard
         [where st = ?st and saved = "str ''t1''" and fetched = "Inl (Rejected (str ''offline''))"] r n
  have 2: "stored_thread_id (initAsync (Inl (Rejected (str ''offline''))) ?st) = None
           \<and> uiState (initAsync (Inl (Rejected (str ''offline''))) ?st) = St_idle"
    by blast
  from 1 2 3 show ?thesis by blast
qed

text \<open>
  C9 as it is written fails in two ways. Where reading the fetched thread throws: the
  thread \<^verbatim>\<open>{"status": "interrupted", "values": {"current_step": {"toString": 1}}}\<close> has
  a pending interrupt for \<open>extractInterruptPayload\<close>, but \<^verbatim>\<open>String(values.current_step)\<close>
  throws a \<^verbatim>\<open>TypeError\<close>, the \<^verbatim>\<open>catch\<close> removes the stored id, and the thread is not
  adopted. And where displaying the payload throws: the thread
  \<^verbatim>\<open>{"__interrupt__": {"question": {"toString": 1}}}\<close> has a pending interrupt as well;
  it is adopted and the state becomes \<open>waiting_approval\<close>, but its question is not
  displayed and the \<^verbatim>\<open>catch\<close> removes the stored id all the same.
\<close>

theorem rehydrate_counterexample:
  "extractInterruptPayload
     (Val (JObj [(str ''status'', JStr (str ''interrupted'')),
                 (str ''values'', JObj [(str ''current_step'', JObj [(str ''toString'', JNum (Nonzero (str ''1'')))])])]))
     = Inr (Val default_payload)
   \<and> truthy (Val default_payload)
   \<and> stored_thread_id (initAsync
        (answer_json (JObj [(str ''status'', JStr (str ''interrupted'')),
                 (str ''values'', JObj [(str ''current_step'', JObj [(str ''toString'', JNum (Nonzero (str ''1'')))])])]))
        (page_loaded (Some (str ''t1'')))) = None
   \<and> uiState (initAsync
        (answer_json (JObj [(str ''status'', JStr (str ''interrupted'')),
                 (str ''values'', JObj [(str ''current_step'', JObj [(str ''toString'', JNum (Nonzero (str ''1'')))])])]))
        (page_loaded (Some (str ''t1'')))) = St_idle
   \<and> threadId (initAsync
        (answer_json (JObj [(str ''status'', JStr (str ''interrupted'')),
                 (str ''values'', JObj [(str ''current_step'', JObj [(str ''toString'', JNum (Nonzero (str ''1'')))])])]))
        (page_loaded (Some (str ''t1'')))) = null
   \<and> extractInterruptPayload
        (Val (JObj [(str ''__interrupt__'', JObj [(str ''question'', JObj [(str ''toString'', JNum (Nonzero (str ''1'')))])])]))
     = Inr (Val (JObj [(str ''question'', JObj [(str ''toString'', JNum (Nonzero (str ''1'')))])]))
   \<and> uiState (initAsync
        (answer_json (JObj [(str ''__interrupt__'', JObj [(str ''question'', JObj [(str ''toString'', JNum (Nonzero (str ''1'')))])])]))
        (page_loaded (Some (str ''t1'')))) = St_waiting_approval
   \<and> threadId (initAsync
        (answer_json (JObj [(str ''__interrupt__'', JObj [(str ''question'', JObj [(str ''toString'', JNum (Nonzero (str ''1'')))])])]))
        (page_loaded (Some (str ''t1'')))) = Val (JStr (str ''t1''))
   \<and> question (initAsync
        (answer_json (JObj [(str ''__interrupt__'', JObj [(str ''question'', JObj [(str ''toString'', JNum (Nonzero (str ''1'')))])])]))
        (page_loaded (Some (str ''t1'')))) = []
   \<and> stored_thread_id (initAsync
        (answer_json (JObj [(str ''__interrupt__'', JObj [(str ''question'', JObj [(str ''toString'', JNum (Nonzero (str ''1'')))])])]))
        (page_loaded (Some (str ''t1'')))) = None"
proof -
  let ?t = "JObj [(str ''status'', JStr (str ''interrupted'')),
                 (str ''values'', JObj [(str ''current_step'', JObj [(str ''toString'', JNum (Nonzero (str ''1'')))])])]"
  let ?p2 = "JObj [(str ''question'', JObj [(str ''toString'', JNum (Nonzero (str ''1'')))])]"
  let ?t2 = "JObj [(str ''__interrupt__'', ?p2)]"
  let ?st = "page_loaded (Some (str ''t1''))"
  let ?s2 = "(setUiState St_idle ?st)\<lparr>requests := requests (setUiState St_idle ?st) @ [GET_thread (str ''t1'')]\<rparr>"
  have r: "restoreThreadId ?st = Some (str ''t1'')"
    by (simp add: restoreThreadId_def page_loaded_def str_def)
  have g: "getThread (answer_json ?t) = Inr (Val ?t)"
    by (simp add: getThread_def answer_json_def)
  have p: "extractInterruptPayload (Val ?t) = Inr (Val default_payload)"
    by (simp add: extractInterruptPayload_def candidates_def locations_def js_or_def str_def)
  have c: "extractCurrentStepFromThread (Val ?t) = Inl TypeError"
    by (simp add: extractCurrentStepFromThread_def js_or_def str_def)
  have i: "initAsync (answer_json ?t) ?st = clearThreadId ?s2"
    using r g p c by (simp add: initAsync_def Let_def restoreThreadId_def setUiState_def)
  have d: "truthy (Val default_payload)" by (simp add: default_payload_def)
  have g2: "getThread (answer_json ?t2) = Inr (Val ?t2)"
    by (simp add: getThread_def answer_json_def)
  have p2: "extractInterruptPayload (Val ?t2) = Inr (Val ?p2)"
    by (simp add: extractInterruptPayload_def candidates_def locations_def accept_candidate_def
        js_coalesce_def looks_like_interrupt_def str_def)
  have c2: "extractCurrentStepFromThread (Val ?t2) = Inr []"
    by (simp add: extractCurrentStepFromThread_def str_def)
  have q2: "js_String (js_or (get_prop (Val ?p2) (str ''question'')) (Val (JStr default_question)))
             = Inl TypeError"
    by (simp add: js_or_def str_def)
  have i2: "initAsync (answer_json ?t2) ?st =
      clearThreadId ((setUiState St_waiting_approval (?s2\<lparr>threadId := Val (JStr (str ''t1''))\<rparr>))
                       \<lparr>approvalCard := True\<rparr>)"
    using r g2 p2 c2 q2
    by (simp add: initAsync_def Let_def restoreThreadId_def setUiState_def show_approval_def)
  have 1: "stored_thread_id (initAsync (answer_json ?t) ?st) = None
      \<and> uiState (initAsync (answer_json ?t) ?st) = St_idle
      \<and> threadId (initAsync (answer_json ?t) ?st) = null"
    unfolding i by (simp add: clearThreadId_def page_loaded_def)
  have 2: "uiState (initAsync (answer_json ?t2) ?st) = St_waiting_approval
      \<and> threadId (initAsync (answer_json ?t2) ?st) = Val (JStr (str ''t1''))
      \<and> question (initAsync (answer_json ?t2) ?st) = []
      \<and> stored_thread_id (initAsync (answer_json ?t2) ?st) = None"
    unfolding i2 by (simp add: clearThreadId_def page_loaded_def)
  from p d 1 p2 2 show ?thesis by blast
qed




end
